theory Spec2Isabelle
  imports Complex_Main
begin

section \<open>Tensors of the notebooks\<close>

text \<open>
  The notebooks work on PyTorch tensors of floating-point numbers.  The development
  reads them in exact arithmetic: an entry is a \<^typ>\<open>real\<close>, a one-dimensional tensor
  is a list of entries and a two-dimensional tensor (batch-size \<times> features) is the list of
  its rows.  Where the range of the floating-point numbers decides a property, the
  single-precision counterpart of a function is given beside it.
\<close>

type_synonym vec = "real list"
type_synonym mat = "real list list"

subsection \<open>Element-wise and row-wise primitives\<close>

text \<open>\<^verbatim>\<open>torch.exp(x)\<close>: the exponential of every entry.\<close>

definition torch_exp :: "mat \<Rightarrow> mat" where
  "torch_exp x = map (map exp) x"

text \<open>\<^verbatim>\<open>torch.sum(x, dim=1)\<close>: the sum along the class dimension, one number per row.\<close>

definition torch_sum_dim1 :: "mat \<Rightarrow> vec" where
  "torch_sum_dim1 x = map sum_list x"

text \<open>\<^verbatim>\<open>.view(-1, 1)\<close> of a one-dimensional tensor: a column, one entry per row.\<close>

definition view_col :: "vec \<Rightarrow> mat" where
  "view_col v = map (\<lambda>s. [s]) v"

text \<open>
  \<^verbatim>\<open>a / b\<close> for \<open>a\<close> of shape \<open>(N, C)\<close> and \<open>b\<close> of shape \<open>(N, 1)\<close>: broadcasting
  divides every entry of row \<open>n\<close> of \<open>a\<close> by the single entry of row \<open>n\<close> of \<open>b\<close>.
\<close>

definition torch_div :: "mat \<Rightarrow> mat \<Rightarrow> mat" where
  "torch_div a b = map2 (\<lambda>row d. map (\<lambda>v. v / hd d) row) a b"

subsection \<open>The notebook's own softmax (Part 2)\<close>

text \<open>
  \<^verbatim>\<open>def softmax(x):
    return torch.exp(x)/torch.sum(torch.exp(x), dim=1).view(-1, 1)\<close>
\<close>

definition softmax :: "mat \<Rightarrow> mat" where
  "softmax x = torch_div (torch_exp x) (view_col (torch_sum_dim1 (torch_exp x)))"

text \<open>What \<^const>\<open>softmax\<close> does to one row.\<close>

definition softmax_row :: "vec \<Rightarrow> vec" where
  "softmax_row r = map (\<lambda>v. exp v / sum_list (map exp r)) r"

subsection \<open>The range of single-precision numbers\<close>

text \<open>
  The tensors of the notebooks hold single-precision floating-point numbers (\<^verbatim>\<open>float32\<close>,
  the default type of \<^verbatim>\<open>torch.randn\<close> and of the image batches).  Such a number is finite,
  an infinity, or not a number.  Of the arithmetic only the range is modelled, not the
  rounding: a result of magnitude \<open>2 ^ 128\<close> or more overflows to an infinity (the largest
  finite number is just below \<open>2 ^ 128\<close>), a result of magnitude at most \<open>1 / 2 ^ 150\<close>
  underflows to zero (the smallest positive number is \<open>1 / 2 ^ 149\<close>), and any other result
  is kept as it is.  The sign of a zero is not modelled.
\<close>

datatype f32 = Finite real | PosInf | NegInf | NotANumber

definition f32_of :: "real \<Rightarrow> f32" where
  "f32_of r =
     (if 2 ^ 128 \<le> r then PosInf
      else if r \<le> - (2 ^ 128) then NegInf
      else if \<bar>r\<bar> \<le> 1 / 2 ^ 150 then Finite 0
      else Finite r)"

text \<open>Addition: not a number propagates, and so does an infinity, but \<open>\<infinity> + (-\<infinity>)\<close> is not a number.\<close>

fun f32_add :: "f32 \<Rightarrow> f32 \<Rightarrow> f32" where
  "f32_add (Finite a) (Finite b) = f32_of (a + b)"
| "f32_add NotANumber _ = NotANumber"
| "f32_add _ NotANumber = NotANumber"
| "f32_add PosInf NegInf = NotANumber"
| "f32_add NegInf PosInf = NotANumber"
| "f32_add PosInf _ = PosInf"
| "f32_add _ PosInf = PosInf"
| "f32_add NegInf _ = NegInf"
| "f32_add _ NegInf = NegInf"

text \<open>
  Division: \<open>0 / 0\<close> and \<open>\<plusminus>\<infinity> / \<plusminus>\<infinity>\<close> are not a number, a nonzero number divided by zero
  is an infinity, and a finite number divided by an infinity is zero.
\<close>

fun f32_div :: "f32 \<Rightarrow> f32 \<Rightarrow> f32" where
  "f32_div (Finite a) (Finite b) =
     (if b \<noteq> 0 then f32_of (a / b)
      else if a = 0 then NotANumber
      else if 0 < a then PosInf else NegInf)"
| "f32_div NotANumber _ = NotANumber"
| "f32_div _ NotANumber = NotANumber"
| "f32_div (Finite a) _ = Finite 0"
| "f32_div PosInf (Finite b) = (if 0 \<le> b then PosInf else NegInf)"
| "f32_div NegInf (Finite b) = (if 0 \<le> b then NegInf else PosInf)"
| "f32_div _ _ = NotANumber"

text \<open>
  The primitives of the notebook's softmax on single-precision tensors; the logits are
  finite numbers.
\<close>

definition torch_exp_f32 :: "mat \<Rightarrow> f32 list list" where
  "torch_exp_f32 x = map (map (\<lambda>v. f32_of (exp v))) x"

definition torch_sum_dim1_f32 :: "f32 list list \<Rightarrow> f32 list" where
  "torch_sum_dim1_f32 x = map (\<lambda>row. foldl f32_add (Finite 0) row) x"

definition view_col_f32 :: "f32 list \<Rightarrow> f32 list list" where
  "view_col_f32 v = map (\<lambda>s. [s]) v"

definition torch_div_f32 :: "f32 list list \<Rightarrow> f32 list list \<Rightarrow> f32 list list" where
  "torch_div_f32 a b = map2 (\<lambda>row d. map (\<lambda>v. f32_div v (hd d)) row) a b"

text \<open>
  \<^verbatim>\<open>torch.exp(x)/torch.sum(torch.exp(x), dim=1).view(-1, 1)\<close> in single precision: the
  notebook exponentiates the logits as they are, without subtracting the row maximum.
\<close>

definition softmax_f32 :: "mat \<Rightarrow> f32 list list" where
  "softmax_f32 x =
     torch_div_f32 (torch_exp_f32 x) (view_col_f32 (torch_sum_dim1_f32 (torch_exp_f32 x)))"

section \<open>The loss: log-softmax and negative log-likelihood\<close>

text \<open>
  What the notebooks call can fail.  A Python exception is a value of \<open>error\<close>; \<open>NaN\<close>
  stands for a floating-point result that is not a number.
\<close>

datatype error = RuntimeError | ValueError | IndexError | ZeroDivisionError | NaN

text \<open>The largest entry of a row (the first entry is the starting value).\<close>

definition row_max :: "vec \<Rightarrow> real" where
  "row_max r = fold max (tl r) (hd r)"

text \<open>
  Modelled from the spec: \<^verbatim>\<open>nn.LogSoftmax(dim=1)\<close> and \<^verbatim>\<open>F.log_softmax\<close> are PyTorch
  built-ins, so their code is not in the notebooks.  Section 4.2 of the specification
  describes the computation: per row, subtract the maximum logit before exponentiating,
  sum the exponentials, take the logarithm of the sum, and subtract it from each shifted
  logit.
\<close>

definition log_softmax_row :: "vec \<Rightarrow> vec" where
  "log_softmax_row r =
     (let shifted = map (\<lambda>v. v - row_max r) r;
          lse = ln (sum_list (map exp shifted))
      in map (\<lambda>s. s - lse) shifted)"

definition log_softmax :: "mat \<Rightarrow> mat" where
  "log_softmax x = map log_softmax_row x"

text \<open>
  Modelled from the spec: \<^verbatim>\<open>nn.NLLLoss()\<close> is a PyTorch built-in.  With its default
  reduction it is the negative mean, over the batch, of the log-probability at the true
  class index (Section 4.2).  In PyTorch a batch whose example count differs from the label
  count raises \<^verbatim>\<open>ValueError\<close>, a label outside the classes raises an error (an
  \<^verbatim>\<open>IndexError\<close>), and the mean over an empty batch is not a number.  Labels are class
  indices, read as naturals.
\<close>

definition NLLLoss :: "mat \<Rightarrow> nat list \<Rightarrow> error + real" where
  "NLLLoss logps labels =
     (if length logps \<noteq> length labels then Inl ValueError
      else if list_ex (\<lambda>(row, y). length row \<le> y) (zip logps labels) then Inl IndexError
      else if logps = [] then Inl NaN
      else Inr (- sum_list (map2 (\<lambda>row y. row ! y) logps labels) / real (length logps)))"

text \<open>
  \<^verbatim>\<open>nn.CrossEntropyLoss()\<close>: the notebook quotes its documentation, ``This criterion
  combines \<^verbatim>\<open>nn.LogSoftmax()\<close> and \<^verbatim>\<open>nn.NLLLoss()\<close> in one single class''.
\<close>

definition CrossEntropyLoss :: "mat \<Rightarrow> nat list \<Rightarrow> error + real" where
  "CrossEntropyLoss logits labels = NLLLoss (log_softmax logits) labels"

section \<open>Layers and networks\<close>

text \<open>The inner product of an input row with one row of a weight matrix.\<close>

definition dot :: "vec \<Rightarrow> vec \<Rightarrow> real" where
  "dot x w = sum_list (map2 (*) x w)"

text \<open>
  The modules the notebooks put into a network.  \<^verbatim>\<open>nn.Linear(in, out)\<close> holds a weight
  matrix of shape \<open>(out, in)\<close>, one row per output unit, and a bias vector of length
  \<open>out\<close>; the other modules have no parameters.
\<close>

datatype layer = Linear (weight: mat) (bias: vec) | ReLU | Softmax | LogSoftmax

text \<open>
  Applying \<^verbatim>\<open>nn.Linear\<close>: the affine transform \<open>x W\<^sup>T + b\<close> of every row of the batch
  (Part 2: ``a module for a linear transformation, \<open>xW + b\<close>'').  A row whose length is
  not the layer's input dimension raises \<^verbatim>\<open>RuntimeError\<close> (size mismatch).
\<close>

definition F_linear :: "mat \<Rightarrow> vec \<Rightarrow> mat \<Rightarrow> error + mat" where
  "F_linear w b x =
     (if list_all (\<lambda>r. list_all (\<lambda>wr. length wr = length r) w) x
      then Inr (map (\<lambda>r. map2 (\<lambda>wr bj. dot r wr + bj) w b) x)
      else Inl RuntimeError)"

text \<open>\<^verbatim>\<open>F.relu\<close> and \<^verbatim>\<open>nn.ReLU()\<close>: negative entries become zero, the others pass.\<close>

definition relu :: "mat \<Rightarrow> mat" where
  "relu x = map (map (max 0)) x"

text \<open>
  Calling one module on a batch.  \<^verbatim>\<open>nn.Softmax(dim=1)\<close> and \<^verbatim>\<open>F.softmax(x, dim=1)\<close>
  compute the function that the notebook's own \<^const>\<open>softmax\<close> implements.
\<close>

fun layer_forward :: "layer \<Rightarrow> mat \<Rightarrow> error + mat" where
  "layer_forward (Linear w b) x = F_linear w b x"
| "layer_forward ReLU x = Inr (relu x)"
| "layer_forward Softmax x = Inr (softmax x)"
| "layer_forward LogSoftmax x = Inr (log_softmax x)"

text \<open>\<^verbatim>\<open>nn.Sequential(...)\<close>: the batch is passed through the modules in order.\<close>

fun Sequential :: "layer list \<Rightarrow> mat \<Rightarrow> error + mat" where
  "Sequential [] x = Inr x"
| "Sequential (l # ls) x =
     (case layer_forward l x of Inl e \<Rightarrow> Inl e | Inr y \<Rightarrow> Sequential ls y)"

text \<open>
  The class \<^verbatim>\<open>Network\<close> of the Part 2 exercise, with its three fully-connected layers:
  \<^verbatim>\<open>def forward(self, x):
    x = F.relu(self.fc1(x))
    x = F.relu(self.fc2(x))
    x = F.relu(self.fc3(x))
    x = F.softmax(x, dim=1)
    return x\<close>
\<close>

record Network =
  fc1 :: layer
  fc2 :: layer
  fc3 :: layer

text \<open>The value of \<^verbatim>\<open>self.fc3(x)\<close> in the third line of \<^verbatim>\<open>forward\<close>.\<close>

definition Network_fc3 :: "Network \<Rightarrow> mat \<Rightarrow> error + mat" where
  "Network_fc3 self x =
     (case layer_forward (fc1 self) x of Inl e \<Rightarrow> Inl e | Inr a1 \<Rightarrow>
      case layer_forward (fc2 self) (relu a1) of Inl e \<Rightarrow> Inl e | Inr a2 \<Rightarrow>
      layer_forward (fc3 self) (relu a2))"

definition Network_forward :: "Network \<Rightarrow> mat \<Rightarrow> error + mat" where
  "Network_forward self x =
     (case Network_fc3 self x of Inl e \<Rightarrow> Inl e | Inr a3 \<Rightarrow> Inr (softmax (relu a3)))"

text \<open>
  The shape of a layer built by \<^verbatim>\<open>nn.Linear(n_in, n_out)\<close>, and the range of its
  fresh parameters: PyTorch draws every weight and bias of a new linear layer uniformly
  from \<open>[-1/\<surd>n_in, 1/\<surd>n_in]\<close>, that is \<open>v\<^sup>2 \<sqdot> n_in \<le> 1\<close> (the bias that Part 2
  prints for \<^verbatim>\<open>nn.Linear(784, 128)\<close> lies within \<open>\<plusminus>1/28\<close>).
\<close>

definition is_Linear :: "nat \<Rightarrow> nat \<Rightarrow> layer \<Rightarrow> bool" where
  "is_Linear n_in n_out l =
     (case l of
        Linear w b \<Rightarrow> length w = n_out \<and> list_all (\<lambda>wr. length wr = n_in) w \<and> length b = n_out
      | _ \<Rightarrow> False)"

definition fresh_Linear :: "nat \<Rightarrow> nat \<Rightarrow> layer \<Rightarrow> bool" where
  "fresh_Linear n_in n_out l =
     (is_Linear n_in n_out l \<and>
      list_all (list_all (\<lambda>v. v * v * real n_in \<le> 1)) (weight l) \<and>
      list_all (\<lambda>v. v * v * real n_in \<le> 1) (bias l))"

text \<open>
  The forward pass followed by the criterion, as every loss cell of Part 3 has it:
  \<^verbatim>\<open>logits = model(images)
loss = criterion(logits, labels)\<close>
\<close>

definition forward_loss ::
  "(mat \<Rightarrow> nat list \<Rightarrow> error + real) \<Rightarrow> layer list \<Rightarrow> mat \<Rightarrow> nat list \<Rightarrow> error + real" where
  "forward_loss criterion model images labels =
     (case Sequential model images of Inl e \<Rightarrow> Inl e | Inr out \<Rightarrow> criterion out labels)"

section \<open>Batches of images\<close>

text \<open>
  A tensor as the data loader delivers it: its shape and its entries in row-major order
  (a batch of MNIST images has shape \<open>[N, 1, 28, 28]\<close>).
\<close>

record tensor =
  shape :: "nat list"
  data :: "real list"

text \<open>The first \<open>n\<close> rows of \<open>k\<close> entries each, cut from a row-major list of entries.\<close>

fun rows_of :: "nat \<Rightarrow> nat \<Rightarrow> real list \<Rightarrow> mat" where
  "rows_of 0 k xs = []"
| "rows_of (Suc n) k xs = take k xs # rows_of n k (drop k xs)"

text \<open>
  \<^verbatim>\<open>images.view(images.shape[0], -1)\<close>: one row per image, the row length inferred from
  the number of entries.  A tensor without dimensions has no \<^verbatim>\<open>shape[0]\<close>; the row length
  cannot be inferred for zero rows or when the entries do not divide evenly.
\<close>

definition view_flat :: "tensor \<Rightarrow> error + mat" where
  "view_flat t =
     (case shape t of
        [] \<Rightarrow> Inl IndexError
      | n # _ \<Rightarrow>
          if n = 0 \<or> length (data t) mod n \<noteq> 0 then Inl RuntimeError
          else Inr (rows_of n (length (data t) div n) (data t)))"




section \<open>Gradient buffers and the optimizer\<close>

text \<open>
  A module of the model under training together with the \<^verbatim>\<open>.grad\<close> attributes of its
  weight and bias.  A gradient is \<^verbatim>\<open>None\<close> until the first backward pass (Part 3 prints
  \<^verbatim>\<open>model[0].weight.grad\<close> before the backward pass: \<^verbatim>\<open>None\<close>).
\<close>

record param_layer =
  nn_module :: layer
  weight_grad :: "mat option"
  bias_grad :: "vec option"

text \<open>The model as \<^verbatim>\<open>nn.Sequential(...)\<close> has just built it: no gradient yet.\<close>

definition fresh_model :: "layer list \<Rightarrow> param_layer list" where
  "fresh_model ls = map (\<lambda>l. \<lparr>nn_module = l, weight_grad = None, bias_grad = None\<rparr>) ls"

text \<open>
  Modelled from the spec: \<^verbatim>\<open>optimizer.zero_grad()\<close> is a PyTorch built-in.  Section 4.3
  asks for a zeroed gradient state before each step: every gradient that exists is
  overwritten with zeros of its shape.  As in PyTorch, a parameter whose gradient is still
  \<^verbatim>\<open>None\<close> is skipped, there being nothing to zero, and keeps \<^verbatim>\<open>None\<close>.  (Later
  releases of PyTorch reset every gradient to \<^verbatim>\<open>None\<close> instead of writing zeros; in both
  cases no buffer holds a gradient afterwards.)
\<close>

definition zero_grad :: "param_layer list \<Rightarrow> param_layer list" where
  "zero_grad st =
     map (\<lambda>pl. pl\<lparr>weight_grad := map_option (map (map (\<lambda>_. 0))) (weight_grad pl),
                   bias_grad := map_option (map (\<lambda>_. 0)) (bias_grad pl)\<rparr>) st"

text \<open>
  \<^verbatim>\<open>loss.backward()\<close> adds the gradient of the loss to the \<^verbatim>\<open>.grad\<close> of every parameter
  (Part 3: ``When you do multiple backwards passes with the same parameters, the gradients
  are accumulated''); a missing gradient is created.  The gradient itself comes from
  PyTorch's automatic differentiation, a parameter of the development:
  \<open>autograd modules images labels i\<close> is the gradient of the loss with respect to the weight
  and the bias of module \<open>i\<close>.
\<close>

type_synonym autograd = "layer list \<Rightarrow> mat \<Rightarrow> nat list \<Rightarrow> nat \<Rightarrow> mat \<times> vec"

definition accumulate_mat :: "mat option \<Rightarrow> mat \<Rightarrow> mat option" where
  "accumulate_mat buf g = (case buf of None \<Rightarrow> Some g | Some a \<Rightarrow> Some (map2 (map2 (+)) a g))"

definition accumulate_vec :: "vec option \<Rightarrow> vec \<Rightarrow> vec option" where
  "accumulate_vec buf g = (case buf of None \<Rightarrow> Some g | Some a \<Rightarrow> Some (map2 (+) a g))"

definition backward_layer :: "mat \<times> vec \<Rightarrow> param_layer \<Rightarrow> param_layer" where
  "backward_layer g pl =
     (case nn_module pl of
        Linear w b \<Rightarrow> pl\<lparr>weight_grad := accumulate_mat (weight_grad pl) (fst g),
                         bias_grad := accumulate_vec (bias_grad pl) (snd g)\<rparr>
      | _ \<Rightarrow> pl)"

definition backward :: "autograd \<Rightarrow> mat \<Rightarrow> nat list \<Rightarrow> param_layer list \<Rightarrow> param_layer list" where
  "backward ag images labels st =
     map (\<lambda>(i, pl). backward_layer (ag (map nn_module st) images labels i) pl) (enumerate 0 st)"

text \<open>
  Modelled from the spec: \<^verbatim>\<open>optimizer.step()\<close> of \<^verbatim>\<open>optim.SGD(model.parameters(), lr)\<close>
  is a PyTorch built-in.  Section 4.4: new value = old value \<open>-\<close> learning rate \<open>\<times>\<close>
  gradient, independently in every entry of every weight and bias tensor, with no momentum
  and no adaptive scaling (Part 3 writes the rule as \<open>W' = W - \<alpha> \<partial>\<ell>/\<partial>W\<close>).  A parameter
  without a gradient is left as it is.
\<close>

definition sgd_mat :: "real \<Rightarrow> mat \<Rightarrow> mat option \<Rightarrow> mat" where
  "sgd_mat lr w g = (case g of None \<Rightarrow> w | Some d \<Rightarrow> map2 (map2 (\<lambda>p q. p - lr * q)) w d)"

definition sgd_vec :: "real \<Rightarrow> vec \<Rightarrow> vec option \<Rightarrow> vec" where
  "sgd_vec lr b g = (case g of None \<Rightarrow> b | Some d \<Rightarrow> map2 (\<lambda>p q. p - lr * q) b d)"

definition step_layer :: "real \<Rightarrow> param_layer \<Rightarrow> param_layer" where
  "step_layer lr pl =
     (case nn_module pl of
        Linear w b \<Rightarrow>
          pl\<lparr>nn_module := Linear (sgd_mat lr w (weight_grad pl)) (sgd_vec lr b (bias_grad pl))\<rparr>
      | _ \<Rightarrow> pl)"

definition optimizer_step :: "real \<Rightarrow> param_layer list \<Rightarrow> param_layer list" where
  "optimizer_step lr st = map (step_layer lr) st"

section \<open>The training loop\<close>

text \<open>
  The loop of Part 3:
  \<^verbatim>\<open>for e in range(epochs):
    running_loss = 0
    for images, labels in trainloader:
        images = images.view(images.shape[0], -1)
        optimizer.zero_grad()
        output = model(images)
        loss = criterion(output, labels)
        loss.backward()
        optimizer.step()
        running_loss += loss.item()
    else:
        print(f"Training loss: {running_loss/len(trainloader)}")\<close>
  with \<^verbatim>\<open>criterion = nn.NLLLoss()\<close>.  A batch is a pair of an image tensor and its labels.
\<close>

type_synonym batch = "tensor \<times> nat list"

text \<open>
  Besides the new model, a training pass records what the properties of the loop speak
  about: the model with its gradients when \<^verbatim>\<open>loss.backward()\<close> is called, the gradient
  that automatic differentiation computes for this batch (one pair per module), the model
  with its gradients when \<^verbatim>\<open>optimizer.step()\<close> is called, the number \<^verbatim>\<open>loss.item()\<close>, and
  the loss of each example of the batch (the negative log-probability of its true class).
\<close>

record pass_trace =
  before_backward :: "param_layer list"
  batch_gradient :: "(mat \<times> vec) list"
  at_step :: "param_layer list"
  loss_item :: real
  example_losses :: "real list"

definition nll_per_example :: "mat \<Rightarrow> nat list \<Rightarrow> real list" where
  "nll_per_example logps labels = map2 (\<lambda>row y. - (row ! y)) logps labels"

definition training_pass ::
  "autograd \<Rightarrow> real \<Rightarrow> param_layer list \<Rightarrow> batch \<Rightarrow> error + (param_layer list \<times> pass_trace)" where
  "training_pass ag lr st b =
     (case view_flat (fst b) of
        Inl e \<Rightarrow> Inl e
      | Inr images \<Rightarrow>
          (let st1 = zero_grad st in
           case Sequential (map nn_module st1) images of
             Inl e \<Rightarrow> Inl e
           | Inr output \<Rightarrow>
               (case NLLLoss output (snd b) of
                  Inl e \<Rightarrow> Inl e
                | Inr loss \<Rightarrow>
                    (let st2 = backward ag images (snd b) st1 in
                     Inr (optimizer_step lr st2,
                          \<lparr>before_backward = st1,
                           batch_gradient =
                             map (ag (map nn_module st1) images (snd b)) [0..<length st1],
                           at_step = st2, loss_item = loss,
                           example_losses = nll_per_example output (snd b)\<rparr>)))))"

text \<open>The inner loop over the batches, threading the model and \<^verbatim>\<open>running_loss\<close>.\<close>

fun epoch_loop ::
  "autograd \<Rightarrow> real \<Rightarrow> param_layer list \<Rightarrow> batch list \<Rightarrow> real \<Rightarrow>
     error + (param_layer list \<times> real \<times> pass_trace list)" where
  "epoch_loop ag lr st [] running_loss = Inr (st, running_loss, [])"
| "epoch_loop ag lr st (b # bs) running_loss =
     (case training_pass ag lr st b of
        Inl e \<Rightarrow> Inl e
      | Inr (st', tr) \<Rightarrow>
          (case epoch_loop ag lr st' bs (running_loss + loss_item tr) of
             Inl e \<Rightarrow> Inl e
           | Inr (st'', rl, trs) \<Rightarrow> Inr (st'', rl, tr # trs)))"

text \<open>
  One epoch: \<^verbatim>\<open>running_loss\<close> starts at 0 and, after the last batch, the \<^verbatim>\<open>else\<close> branch
  prints \<^verbatim>\<open>running_loss/len(trainloader)\<close>; with no batch at all Python divides zero by
  zero and raises \<^verbatim>\<open>ZeroDivisionError\<close>.
\<close>

record epoch_trace =
  passes :: "pass_trace list"
  printed :: real

definition run_epoch ::
  "autograd \<Rightarrow> real \<Rightarrow> param_layer list \<Rightarrow> batch list \<Rightarrow>
     error + (param_layer list \<times> epoch_trace)" where
  "run_epoch ag lr st batches =
     (case epoch_loop ag lr st batches 0 of
        Inl e \<Rightarrow> Inl e
      | Inr (st', running_loss, trs) \<Rightarrow>
          if length batches = 0 then Inl ZeroDivisionError
          else Inr (st', \<lparr>passes = trs, printed = running_loss / real (length batches)\<rparr>))"

text \<open>
  The outer loop.  The loader shuffles, so \<open>trainloader e\<close> is the list of batches it yields
  in pass \<open>e\<close>, and \<^verbatim>\<open>len(trainloader)\<close> is the number of these batches.
\<close>

fun epochs_loop ::
  "autograd \<Rightarrow> real \<Rightarrow> (nat \<Rightarrow> batch list) \<Rightarrow> param_layer list \<Rightarrow> nat list \<Rightarrow>
     error + (param_layer list \<times> epoch_trace list)" where
  "epochs_loop ag lr trainloader st [] = Inr (st, [])"
| "epochs_loop ag lr trainloader st (e # es) =
     (case run_epoch ag lr st (trainloader e) of
        Inl err \<Rightarrow> Inl err
      | Inr (st', et) \<Rightarrow>
          (case epochs_loop ag lr trainloader st' es of
             Inl err \<Rightarrow> Inl err
           | Inr (st'', ets) \<Rightarrow> Inr (st'', et # ets)))"

text \<open>
  The whole cell: the model is built, the optimizer gets its learning rate, and the loop
  runs for \<^verbatim>\<open>range(epochs)\<close> (Part 3 uses \<^verbatim>\<open>lr=0.003\<close> and \<^verbatim>\<open>epochs = 5\<close>).
\<close>

definition train ::
  "autograd \<Rightarrow> real \<Rightarrow> (nat \<Rightarrow> batch list) \<Rightarrow> nat \<Rightarrow> layer list \<Rightarrow>
     error + (param_layer list \<times> epoch_trace list)" where
  "train ag lr trainloader epochs model =
     epochs_loop ag lr trainloader (fresh_model model) [0..<epochs]"

text \<open>
  The model of the Part 3 cells: \<^verbatim>\<open>nn.Sequential(nn.Linear(784, 128), nn.ReLU(),
  nn.Linear(128, 64), nn.ReLU(), nn.Linear(64, 10), nn.LogSoftmax(dim=1))\<close>.
\<close>

definition mnist_model :: "mat \<Rightarrow> vec \<Rightarrow> mat \<Rightarrow> vec \<Rightarrow> mat \<Rightarrow> vec \<Rightarrow> layer list" where
  "mnist_model w1 b1 w2 b2 w3 b3 =
     [Linear w1 b1, ReLU, Linear w2 b2, ReLU, Linear w3 b3, LogSoftmax]"

subsection \<open>Predicates on gradient buffers\<close>

definition is_zero_mat :: "mat \<Rightarrow> bool" where
  "is_zero_mat g = list_all (list_all (\<lambda>v. v = 0)) g"

definition is_zero_vec :: "vec \<Rightarrow> bool" where
  "is_zero_vec g = list_all (\<lambda>v. v = 0) g"

text \<open>
  The cleared state of the gradient buffers of a layer: each buffer is not yet allocated
  (\<^verbatim>\<open>None\<close>) or holds zeros only.  Either way it holds the gradient of no batch:
  \<^verbatim>\<open>loss.backward()\<close> stores the gradient of the batch into a missing buffer and adds it to
  an existing one, and what it adds to zeros of the gradient's shape is what it stores.
  Section 9 of the specification names both forms, a buffer ``freshly allocated (or
  explicitly zeroed)'' for each step.
\<close>

definition grads_clear :: "param_layer \<Rightarrow> bool" where
  "grads_clear pl =
     ((case weight_grad pl of None \<Rightarrow> True | Some g \<Rightarrow> is_zero_mat g) \<and>
      (case bias_grad pl of None \<Rightarrow> True | Some g \<Rightarrow> is_zero_vec g))"

text \<open>A layer that has parameters, a weight and a bias.\<close>

definition has_parameters :: "param_layer \<Rightarrow> bool" where
  "has_parameters pl = (case nn_module pl of Linear w b \<Rightarrow> True | _ \<Rightarrow> False)"

text \<open>
  A gradient has the shape of its parameter: what automatic differentiation returns for a
  linear layer is a matrix with the row lengths of the weight and a vector with the length
  of the bias.
\<close>

definition gradient_shaped :: "autograd \<Rightarrow> bool" where
  "gradient_shaped ag =
     (\<forall>ms images labels i. i < length ms \<longrightarrow>
        (case ms ! i of
           Linear w b \<Rightarrow>
             map length (fst (ag ms images labels i)) = map length w \<and>
             length (snd (ag ms images labels i)) = length b
         | _ \<Rightarrow> True))"

text \<open>Every gradient buffer of a layer that exists has the shape of its parameter.\<close>

definition grads_shaped :: "param_layer \<Rightarrow> bool" where
  "grads_shaped pl =
     (case nn_module pl of
        Linear w b \<Rightarrow>
          (case weight_grad pl of None \<Rightarrow> True | Some g \<Rightarrow> map length g = map length w) \<and>
          (case bias_grad pl of None \<Rightarrow> True | Some g \<Rightarrow> length g = length b)
      | _ \<Rightarrow> True)"

text \<open>
  When \<^verbatim>\<open>optimizer.step()\<close> is called, the gradient of the weight and of the bias of every
  layer with parameters is the gradient computed for the current batch: the same tensor,
  with nothing of another batch added.
\<close>

definition uses_batch_gradient :: "pass_trace \<Rightarrow> bool" where
  "uses_batch_gradient tr =
     (length (at_step tr) = length (before_backward tr) \<and>
      length (batch_gradient tr) = length (before_backward tr) \<and>
      list_all
        (\<lambda>(pl, g). \<not> has_parameters pl \<or>
           (weight_grad pl = Some (fst g) \<and> bias_grad pl = Some (snd g)))
        (zip (at_step tr) (batch_gradient tr)))"

subsection \<open>Means of losses\<close>

definition mean :: "real list \<Rightarrow> real" where
  "mean xs = sum_list xs / real (length xs)"

text \<open>The losses of all examples that an epoch processed, batch after batch.\<close>

definition epoch_examples :: "epoch_trace \<Rightarrow> real list" where
  "epoch_examples et = concat (map example_losses (passes et))"

subsection \<open>A concrete model and concrete batches\<close>

text \<open>The model of Part 3 with every weight and every bias set to zero.\<close>

definition zero_mnist_model :: "layer list" where
  "zero_mnist_model =
     mnist_model (replicate 128 (replicate 784 0)) (replicate 128 0)
                 (replicate 64 (replicate 128 0)) (replicate 64 0)
                 (replicate 10 (replicate 64 0)) (replicate 10 0)"

text \<open>A batch of \<open>n\<close> MNIST-shaped images whose pixels all have the value \<open>v\<close>.\<close>

definition constant_images :: "nat \<Rightarrow> real \<Rightarrow> tensor" where
  "constant_images n v = \<lparr>shape = [n, 1, 28, 28], data = replicate (n * 784) v\<rparr>"


text \<open>
  Modelled from the spec: the gradient that backpropagation (Section 4.3) yields for a
  model whose weights are all zero and whose hidden biases are not positive.  Every hidden
  activation is then zero and the logits are the bias of the last linear layer, so the
  gradient of every weight (previous activation\<open>\<^sup>T \<sqdot>\<close> incoming gradient) and of every
  hidden bias (the gradient propagated through zero weights) is zero, and the gradient of
  the last bias is the mean over the batch of softmax(logits) \<open>-\<close> one-hot(label).
\<close>

definition output_bias_gradient :: "vec \<Rightarrow> nat list \<Rightarrow> vec" where
  "output_bias_gradient b labels =
     map (\<lambda>j. sum_list (map (\<lambda>y. softmax_row b ! j - (if y = j then 1 else 0)) labels)
               / real (length labels))
       [0..<length b]"

definition is_last_linear :: "layer list \<Rightarrow> nat \<Rightarrow> bool" where
  "is_last_linear modules i =
     list_all (\<lambda>l. case l of Linear w b \<Rightarrow> False | _ \<Rightarrow> True) (drop (Suc i) modules)"

definition zero_weight_autograd :: autograd where
  "zero_weight_autograd modules images labels i =
     (case modules ! i of
        Linear w b \<Rightarrow>
          (map (map (\<lambda>_. 0)) w,
           if is_last_linear modules i then output_bias_gradient b labels else map (\<lambda>_. 0) b)
      | _ \<Rightarrow> ([], []))"

text \<open>
  The models that training reaches from \<^const>\<open>zero_mnist_model\<close> under
  \<^const>\<open>zero_weight_autograd\<close>: only the bias \<open>b3\<close> of the last linear layer and its
  gradient \<open>g3\<close> vary; the other gradients are all missing or all allocated (and zero).
\<close>

definition zero_weight_state :: "bool \<Rightarrow> vec \<Rightarrow> vec option \<Rightarrow> param_layer list" where
  "zero_weight_state allocated b3 g3 =
     [\<lparr>nn_module = Linear (replicate 128 (replicate 784 0)) (replicate 128 0),
       weight_grad = (if allocated then Some (replicate 128 (replicate 784 0)) else None),
       bias_grad = (if allocated then Some (replicate 128 0) else None)\<rparr>,
      \<lparr>nn_module = ReLU, weight_grad = None, bias_grad = None\<rparr>,
      \<lparr>nn_module = Linear (replicate 64 (replicate 128 0)) (replicate 64 0),
       weight_grad = (if allocated then Some (replicate 64 (replicate 128 0)) else None),
       bias_grad = (if allocated then Some (replicate 64 0) else None)\<rparr>,
      \<lparr>nn_module = ReLU, weight_grad = None, bias_grad = None\<rparr>,
      \<lparr>nn_module = Linear (replicate 10 (replicate 64 0)) b3,
       weight_grad = (if allocated then Some (replicate 10 (replicate 64 0)) else None),
       bias_grad = g3\<rparr>,
      \<lparr>nn_module = LogSoftmax, weight_grad = None, bias_grad = None\<rparr>]"

text \<open>
  From \<^const>\<open>zero_mnist_model\<close>, one step with the learning rate 0.003 on a batch whose
  labels are all 0 moves the last bias to \<open>(0.0027, -0.0003, \<dots>, -0.0003)\<close>; an example
  labelled 0 then has the loss \<open>ln (e\<^sup>0\<^sup>.\<^sup>0\<^sup>0\<^sup>2\<^sup>7 + 9 e\<^sup>-\<^sup>0\<^sup>.\<^sup>0\<^sup>0\<^sup>0\<^sup>3) - 0.0027\<close>.
\<close>

definition bias_after_first_step :: vec where
  "bias_after_first_step = (27/10000) # replicate 9 (- 3/10000)"

definition loss_after_first_step :: real where
  "loss_after_first_step = ln (exp (27/10000) + 9 * exp (- 3/10000)) - 27/10000"

text \<open>Two batches of all-zero images, all labelled 0, of \<open>n1\<close> and \<open>n2\<close> examples.\<close>

definition two_batches :: "nat \<Rightarrow> nat \<Rightarrow> batch list" where
  "two_batches n1 n2 =
     [(constant_images n1 0, replicate n1 0), (constant_images n2 0, replicate n2 0)]"

section \<open>Properties of softmax\<close>

lemma softmax_rows: "softmax x = map softmax_row x"
  by (induction x)
     (simp_all add: softmax_def torch_div_def torch_exp_def torch_sum_dim1_def view_col_def
        softmax_row_def comp_def)

lemma sum_list_exp_nonneg: "0 \<le> sum_list (map exp (r :: vec))"
  by (induction r) simp_all

lemma sum_list_exp_pos: "r \<noteq> [] \<Longrightarrow> 0 < sum_list (map exp (r :: vec))"
proof (cases r)
  case Nil
  assume "r \<noteq> []"
  with Nil show ?thesis by simp
next
  case (Cons a t)
  have "0 < exp a + sum_list (map exp t)"
    using sum_list_exp_nonneg [of t] exp_gt_zero [of a] by linarith
  with Cons show ?thesis by simp
qed

lemma sum_list_divide_const: "sum_list (map (\<lambda>v. f v / (c::real)) r) = sum_list (map f r) / c"
  by (induction r) (simp_all add: add_divide_distrib)

lemma softmax_row_sum: "r \<noteq> [] \<Longrightarrow> sum_list (softmax_row r) = 1"
  using sum_list_exp_pos [of r]
  by (simp add: softmax_row_def sum_list_divide_const)

lemma softmax_row_shift: "softmax_row (map (\<lambda>v. v + c) r) = softmax_row r"
proof -
  have s: "sum_list (map (\<lambda>v. exp (v + c)) r) = exp c * sum_list (map exp r)"
    by (induction r) (simp_all add: exp_add algebra_simps)
  show ?thesis
    by (simp add: softmax_row_def comp_def s) (simp add: exp_add mult.commute)
qed

lemma exp_ge_power_2: "(2::real) ^ n \<le> exp (real n)"
proof -
  have "(2::real) \<le> exp 1" using exp_ge_add_one_self [of "1::real"] by simp
  then have "(2::real) ^ n \<le> exp 1 ^ n" by (intro power_mono) simp_all
  also have "\<dots> = exp (real n)" using exp_of_nat_mult [of n "1::real"] by simp
  finally show ?thesis .
qed

lemma f32_exp_128: "f32_of (exp 128) = PosInf"
  using exp_ge_power_2 [of 128] by (simp add: f32_of_def)

lemma f32_of_small: "f32_of 0 = Finite 0" "f32_of 1 = Finite 1" "f32_of 2 = Finite 2"
  "f32_of (1 / 2) = Finite (1 / 2)"
  by (simp_all add: f32_of_def)

lemma f32_exp_minus_150: "f32_of (exp (- 150)) = Finite 0"
proof -
  have "(2::real) ^ 150 \<le> exp 150" using exp_ge_power_2 [of 150] by simp
  then have "exp (- 150) \<le> 1 / (2::real) ^ 150"
    by (simp add: exp_minus field_simps)
  moreover have "0 < exp (- 150 :: real)" by simp
  ultimately show ?thesis unfolding f32_of_def by (simp del: exp_gt_zero)
qed

text \<open>Where nothing overflows or underflows the single-precision softmax is the exact one.\<close>

lemma softmax_f32_in_range:
  "softmax_f32 [[0, 0], [0, 0]] = [[Finite (1/2), Finite (1/2)], [Finite (1/2), Finite (1/2)]]"
  by (simp add: softmax_f32_def torch_div_f32_def torch_exp_f32_def torch_sum_dim1_f32_def
        view_col_f32_def f32_of_small)

text \<open>
  C6.  In exact arithmetic, for a batch of logits of any batch size, with at least one
  class per row, every row of the softmax output sums to exactly 1, and the output has one
  row per example.
\<close>

theorem softmax_rows_sum_to_one:
  assumes "list_all (\<lambda>r. r \<noteq> []) x"
  shows "length (softmax x) = length x \<and> list_all (\<lambda>r. sum_list r = 1) (softmax x)"
  using assms by (simp add: softmax_rows list_all_iff softmax_row_sum)

theorem softmax_rows_sum_to_one_witness:
  "softmax [[0, ln 3], [0, 0]] = [[1/4, 3/4], [1/2, 1/2]]
   \<and> length (softmax [[0, ln 3], [0, 0]]) = 2
   \<and> list_all (\<lambda>r. sum_list r = 1) (softmax [[0, ln 3], [0, 0]])"
  using softmax_rows_sum_to_one [of "[[0, ln 3], [0, 0]]"]
  by (simp add: softmax_rows softmax_row_def)

text \<open>
  In single precision the rows need not sum to 1 within any tolerance.  The exponential of
  the logit 128 overflows (single precision overflows from about 88.7 on), so the row
  \<open>[128, 0]\<close> becomes \<open>[\<infinity>/\<infinity>, 1/\<infinity>]\<close>, whose first entry and whose sum are not a number; the
  exponential of the logit \<open>-150\<close> underflows to zero, so the row \<open>[-150, -150]\<close> becomes
  \<open>[0/0, 0/0]\<close>.
\<close>

theorem softmax_f32_counterexample:
  "softmax_f32 [[128, 0]] = [[NotANumber, Finite 0]]
   \<and> torch_sum_dim1_f32 (softmax_f32 [[128, 0]]) = [NotANumber]
   \<and> softmax_f32 [[- 150, - 150]] = [[NotANumber, NotANumber]]"
  by (simp add: softmax_f32_def torch_div_f32_def torch_exp_f32_def torch_sum_dim1_f32_def
        view_col_f32_def f32_exp_128 f32_exp_minus_150 f32_of_small)

text \<open>
  C10.  Softmax is shift-invariant: adding a constant \<open>c\<close> to every logit of row \<open>i\<close> of a
  batch leaves the softmax output unchanged (an index past the batch changes nothing).
\<close>

theorem softmax_shift_invariant:
  "softmax (x[i := map (\<lambda>v. v + c) (x ! i)]) = softmax x"
proof (cases "i < length x")
  case True
  then have "(map softmax_row x)[i := softmax_row (x ! i)] = map softmax_row x"
    by (metis list_update_id nth_map)
  then show ?thesis
    by (simp add: softmax_rows map_update softmax_row_shift)
next
  case False
  then have "length x \<le> i" by simp
  then show ?thesis by (simp add: list_update_beyond)
qed

section \<open>Properties of the loss\<close>

lemma fold_max_ge: "(a::real) \<le> fold max xs a"
proof (induction xs arbitrary: a)
  case Nil
  show ?case by simp
next
  case (Cons x xs)
  have "a \<le> max x a" by simp
  also have "\<dots> \<le> fold max xs (max x a)" by (rule Cons.IH)
  finally show ?case by simp
qed

lemma fold_max_upper: "v \<in> set xs \<Longrightarrow> (v::real) \<le> fold max xs a"
proof (induction xs arbitrary: a)
  case Nil
  then show ?case by simp
next
  case (Cons x xs)
  show ?case
  proof (cases "v = x")
    case True
    have "x \<le> max x a" by simp
    also have "\<dots> \<le> fold max xs (max x a)" by (rule fold_max_ge)
    finally show ?thesis using True by simp
  next
    case False
    with Cons.prems have "v \<in> set xs" by simp
    then show ?thesis using Cons.IH by simp
  qed
qed

lemma fold_max_mem: "fold max xs (a::real) \<in> insert a (set xs)"
  by (induction xs arbitrary: a) (auto simp: max_def)

lemma row_max_upper: "v \<in> set r \<Longrightarrow> v \<le> row_max r"
  unfolding row_max_def
  by (cases r) (auto simp: fold_max_ge fold_max_upper)

lemma row_max_mem: "r \<noteq> [] \<Longrightarrow> row_max r \<in> set r"
  unfolding row_max_def
  using fold_max_mem [of "tl r" "hd r"] by (cases r) auto

lemma sum_list_exp_shift:
  "sum_list (map (\<lambda>v. exp (v - m)) (r::vec)) = exp (- m) * sum_list (map exp r)"
  by (induction r) (simp_all add: exp_diff exp_minus algebra_simps divide_inverse)

lemma log_softmax_row_eq:
  assumes "r \<noteq> []"
  shows "log_softmax_row r = map ln (softmax_row r)"
proof -
  let ?S = "sum_list (map exp r)"
  let ?m = "row_max r"
  have S: "0 < ?S" using assms by (rule sum_list_exp_pos)
  have lse: "ln (sum_list (map exp (map (\<lambda>v. v - ?m) r))) = ln ?S - ?m"
  proof -
    have "sum_list (map exp (map (\<lambda>v. v - ?m) r)) = exp (- ?m) * ?S"
      by (simp add: comp_def sum_list_exp_shift)
    then show ?thesis using S by (simp add: ln_mult)
  qed
  have pt: "v - ?m - (ln ?S - ?m) = ln (exp v / ?S)" for v
    using S by (simp add: ln_div)
  have "log_softmax_row r = map (\<lambda>v. v - ?m - (ln ?S - ?m)) r"
    unfolding log_softmax_row_def Let_def lse by (simp only: map_map comp_def)
  also have "\<dots> = map (\<lambda>v. ln (exp v / ?S)) r"
    by (simp only: pt)
  also have "\<dots> = map ln (softmax_row r)"
    by (simp only: softmax_row_def map_map comp_def)
  finally show ?thesis .
qed

lemma log_softmax_eq:
  assumes "list_all (\<lambda>r. r \<noteq> []) x"
  shows "log_softmax x = map (map ln) (softmax x)"
  using assms
  by (simp add: log_softmax_def softmax_rows list_all_iff log_softmax_row_eq)

text \<open>
  C4.  Every row of logits (with at least one class) is normalised in the log domain with
  its maximum subtracted first: the maximum is an entry of the row, no shifted logit is
  positive, and the result equals the logarithm of the unshifted softmax of the row.
\<close>

theorem log_softmax_is_log_of_softmax:
  assumes "r \<noteq> []"
  shows "row_max r \<in> set r
       \<and> list_all (\<lambda>v. v - row_max r \<le> 0) r
       \<and> log_softmax_row r =
           map (\<lambda>s. s - ln (sum_list (map exp (map (\<lambda>v. v - row_max r) r))))
             (map (\<lambda>v. v - row_max r) r)
       \<and> log_softmax [r] = map (map ln) (softmax [r])"
proof -
  have "list_all (\<lambda>v. v - row_max r \<le> 0) r"
    by (simp add: list_all_iff row_max_upper)
  moreover have "log_softmax [r] = map (map ln) (softmax [r])"
    using assms by (simp add: log_softmax_eq)
  ultimately show ?thesis
    using assms by (simp add: row_max_mem log_softmax_row_def Let_def)
qed

theorem log_softmax_is_log_of_softmax_witness:
  "row_max [1, 3, 2] = 3
   \<and> log_softmax [[1, 3, 2]] = map (map ln) (softmax [[1, 3, 2]])
   \<and> log_softmax [[0, 0]] = [[- ln 2, - ln 2]]"
  using log_softmax_is_log_of_softmax [of "[1, 3, 2]"] log_softmax_is_log_of_softmax [of "[0, 0]"]
  by (simp add: row_max_def softmax_rows softmax_row_def ln_div)


lemma NLLLoss_ok:
  assumes "logps \<noteq> []" "length labels = length logps"
    and "list_all2 (\<lambda>row y. y < length row) logps labels"
  shows "NLLLoss logps labels =
     Inr (- sum_list (map2 (\<lambda>row y. row ! y) logps labels) / real (length logps))"
proof -
  have "\<not> list_ex (\<lambda>(row, y). length row \<le> y) (zip logps labels)"
    using assms(3) by (auto simp: list_ex_iff list_all2_iff)
  then show ?thesis using assms(1,2) by (simp add: NLLLoss_def)
qed

lemma map2_ln_softmax:
  "length labels = length x \<Longrightarrow> list_all2 (\<lambda>row y. y < length row) x labels \<Longrightarrow>
   map2 (\<lambda>row y. row ! y) (map (map ln) (softmax x)) labels
   = map2 (\<lambda>p y. ln (p ! y)) (softmax x) labels"
proof (induction x labels rule: list_induct2')
  case (4 r x y labels)
  then show ?case by (simp add: softmax_rows softmax_row_def)
qed simp_all

text \<open>
  C1.  For a batch of logits with ten classes per row and labels in \<open>[0, 10)\<close>, one per
  example, the loss of the log-softmax output under the negative log-likelihood criterion
  is the negative mean, over the examples, of the logarithm of the softmax probability of
  each example's true class; the cross-entropy criterion on the logits is the same number.
\<close>

theorem loss_is_negative_mean_log_probability:
  assumes "logits \<noteq> []"
    and "list_all (\<lambda>r. length r = 10) logits"
    and "length labels = length logits"
    and "list_all (\<lambda>y. y < 10) labels"
  shows "NLLLoss (log_softmax logits) labels =
           Inr (- sum_list (map2 (\<lambda>p y. ln (p ! y)) (softmax logits) labels)
                  / real (length logits))
       \<and> CrossEntropyLoss logits labels = NLLLoss (log_softmax logits) labels"
proof -
  have ne: "list_all (\<lambda>r. r \<noteq> []) logits"
    using assms(2) by (auto simp: list_all_iff)
  have ls: "log_softmax logits = map (map ln) (softmax logits)"
    using ne by (rule log_softmax_eq)
  have in_range: "list_all2 (\<lambda>row y. y < length row) logits labels"
    unfolding list_all2_iff
  proof (intro conjI ballI)
    show "length logits = length labels" using assms(3) by simp
  next
    fix p assume p: "p \<in> set (zip logits labels)"
    obtain r y where ry: "p = (r, y)" by (cases p)
    from p ry have "r \<in> set logits" "y \<in> set labels"
      by (auto dest: set_zip_leftD set_zip_rightD)
    with assms(2,4) have "length r = 10" "y < 10" by (auto simp: list_all_iff)
    then show "case p of (row, y) \<Rightarrow> y < length row" using ry by simp
  qed
  have in_range': "list_all2 (\<lambda>row y. y < length row) (map (map ln) (softmax logits)) labels"
    using in_range by (simp add: softmax_rows list_all2_map1 softmax_row_def)
  have "NLLLoss (map (map ln) (softmax logits)) labels =
     Inr (- sum_list (map2 (\<lambda>row y. row ! y) (map (map ln) (softmax logits)) labels)
            / real (length (map (map ln) (softmax logits))))"
    using assms(1,3) in_range' by (intro NLLLoss_ok) (simp_all add: softmax_rows)
  then show ?thesis
    using map2_ln_softmax [OF assms(3) in_range]
    by (simp add: ls CrossEntropyLoss_def softmax_rows)
qed

theorem loss_is_negative_mean_log_probability_witness:
  "NLLLoss (log_softmax [[0, 0, 0, 0, 0, 0, 0, 0, 0, 0], [0, 0, 0, 0, 0, 0, 0, 0, 0, 0]]) [3, 7]
     = Inr (ln 10)
   \<and> CrossEntropyLoss [[0, 0, 0, 0, 0, 0, 0, 0, 0, 0], [0, 0, 0, 0, 0, 0, 0, 0, 0, 0]] [3, 7]
     = Inr (ln 10)"
  using loss_is_negative_mean_log_probability
    [of "[[0, 0, 0, 0, 0, 0, 0, 0, 0, 0], [0, 0, 0, 0, 0, 0, 0, 0, 0, 0]]" "[3, 7]"]
  by (simp add: softmax_rows softmax_row_def ln_div)

section \<open>Networks on the all-zero batch\<close>


lemma dot_zeros: "dot (replicate n 0) w = 0"
proof (induction w arbitrary: n)
  case Nil
  show ?case by (simp add: dot_def)
next
  case (Cons a w)
  then show ?case by (cases n) (simp_all add: dot_def)
qed

lemma map2_snd: "length w = length b \<Longrightarrow> map2 (\<lambda>wr bj. bj) w b = b"
  by (induction w b rule: list_induct2) simp_all

lemma linear_zeros:
  assumes "is_Linear n_in n_out (Linear w b)"
  shows "F_linear w b (replicate n (replicate n_in 0)) = Inr (replicate n b)"
proof -
  have chk: "list_all (\<lambda>r. list_all (\<lambda>wr. length wr = length r) w) (replicate n (replicate n_in 0))"
    using assms by (auto simp: is_Linear_def list_all_iff)
  have len: "length w = length b" using assms by (simp add: is_Linear_def)
  have row: "map2 (\<lambda>wr bj. dot (replicate n_in 0) wr + bj) w b = b"
    using map2_snd [OF len] by (simp add: dot_zeros)
  show ?thesis
    unfolding F_linear_def using chk by (simp add: row)
qed

lemma relu_zeros: "relu (replicate n (replicate k 0)) = replicate n (replicate k 0)"
  by (simp add: relu_def)

lemma softmax_row_const:
  assumes "0 < k"
  shows "softmax_row (replicate k c) = replicate k (1 / real k)"
proof -
  have "sum_list (map exp (replicate k c)) = real k * exp c"
    by (simp add: sum_list_replicate)
  then show ?thesis
    unfolding softmax_row_def by simp
qed

lemma log_softmax_row_const:
  assumes "0 < k"
  shows "log_softmax_row (replicate k c) = replicate k (- ln (real k))"
proof -
  have "log_softmax_row (replicate k c) = map ln (softmax_row (replicate k c))"
    using assms by (intro log_softmax_row_eq) simp
  then show ?thesis
    using assms by (simp add: softmax_row_const ln_div)
qed

lemma sum_pick_const:
  "length labels = n \<Longrightarrow> list_all (\<lambda>y. y < k) labels \<Longrightarrow>
   sum_list (map2 (\<lambda>row y. row ! y) (replicate n (replicate k v)) labels) = real n * v"
proof (induction labels arbitrary: n)
  case Nil
  then show ?case by simp
next
  case (Cons y labels)
  then obtain m where n: "n = Suc m" by (cases n) auto
  with Cons.prems have "length labels = m" "list_all (\<lambda>y. y < k) labels" "y < k" by simp_all
  then show ?case using Cons.IH [of m] n by (simp add: algebra_simps)
qed

lemma NLLLoss_const:
  assumes "0 < n" "length labels = n" "list_all (\<lambda>y. y < k) labels"
  shows "NLLLoss (replicate n (replicate k v)) labels = Inr (- v)"
proof -
  have "list_all2 (\<lambda>row y. y < length row) (replicate n (replicate k v)) labels"
    using assms(2,3) by (auto simp: list_all2_iff list_all_iff set_zip)
  then have "NLLLoss (replicate n (replicate k v)) labels =
      Inr (- sum_list (map2 (\<lambda>row y. row ! y) (replicate n (replicate k v)) labels)
             / real (length (replicate n (replicate k v))))"
    using assms(1,2) by (intro NLLLoss_ok) auto
  then show ?thesis
    using assms(1) sum_pick_const [OF assms(2,3), of v] by simp
qed


lemma relu_nonpos:
  "list_all (\<lambda>v. v \<le> 0) b \<Longrightarrow> relu (replicate n b) = replicate n (replicate (length b) 0)"
proof -
  assume "list_all (\<lambda>v. v \<le> 0) b"
  then have "map (max 0) b = replicate (length b) 0"
    by (induction b) (simp_all add: max_def)
  then show ?thesis by (simp add: relu_def)
qed

lemma two_layer_zero_images:
  assumes "is_Linear n_in n_hid (Linear w1 b1)" "is_Linear n_hid n_out (Linear w2 b2)"
    and "list_all (\<lambda>v. v \<le> 0) b1"
  shows "Sequential [Linear w1 b1, ReLU, Linear w2 b2] (replicate n (replicate n_in 0))
           = Inr (replicate n b2)"
proof -
  have l1: "F_linear w1 b1 (replicate n (replicate n_in 0)) = Inr (replicate n b1)"
    using assms(1) by (rule linear_zeros)
  have len: "length b1 = n_hid" using assms(1) by (simp add: is_Linear_def)
  have r: "relu (replicate n b1) = replicate n (replicate n_hid 0)"
    using relu_nonpos [OF assms(3)] len by simp
  have l2: "F_linear w2 b2 (replicate n (replicate n_hid 0)) = Inr (replicate n b2)"
    using assms(2) by (rule linear_zeros)
  show ?thesis by (simp add: l1 r l2)
qed

text \<open>
  C8 (as amended).  For the two-layer network \<open>784 \<rightarrow> 128 \<rightarrow> 10\<close> with a rectifying hidden
  layer and no output nonlinearity, whose two bias vectors are zero (the weights are
  arbitrary), and for every batch of 64 all-zero flattened images with labels in
  \<open>[0, 10)\<close>, the cross-entropy loss is exactly \<open>ln 10\<close>.
\<close>

theorem zero_bias_network_loss_is_ln10:
  assumes "is_Linear 784 128 (Linear w1 (replicate 128 0))"
    and "is_Linear 128 10 (Linear w2 (replicate 10 0))"
    and "length labels = 64"
    and "list_all (\<lambda>y. y < 10) labels"
  shows "forward_loss CrossEntropyLoss
           [Linear w1 (replicate 128 0), ReLU, Linear w2 (replicate 10 0)]
           (replicate 64 (replicate 784 0)) labels
         = Inr (ln 10)"
proof -
  have fwd: "Sequential [Linear w1 (replicate 128 0), ReLU, Linear w2 (replicate 10 0)]
               (replicate 64 (replicate 784 0)) = Inr (replicate 64 (replicate 10 0))"
    using assms(1,2) by (rule two_layer_zero_images) (simp add: list_all_iff)
  have ls: "log_softmax (replicate 64 (replicate 10 0)) = replicate 64 (replicate 10 (- ln 10))"
    using log_softmax_row_const [of 10 0] by (simp add: log_softmax_def)
  have "NLLLoss (replicate 64 (replicate 10 (- ln 10))) labels = Inr (- (- ln 10))"
    using assms(3,4) by (intro NLLLoss_const) simp_all
  then show ?thesis
    unfolding forward_loss_def fwd by (simp add: CrossEntropyLoss_def ls)
qed


theorem zero_bias_network_loss_is_ln10_witness:
  "forward_loss CrossEntropyLoss
     [Linear (replicate 128 (replicate 784 (1/100))) (replicate 128 0), ReLU,
      Linear (replicate 10 (replicate 128 (1/20))) (replicate 10 0)]
     (replicate 64 (replicate 784 0)) (replicate 64 7)
   = Inr (ln 10)"
  using zero_bias_network_loss_is_ln10
    [of "replicate 128 (replicate 784 (1/100))" "replicate 10 (replicate 128 (1/20))"
        "replicate 64 7"]
  by (simp add: is_Linear_def list_all_iff)

lemma NLLLoss_same_rows:
  assumes "0 < n" "y < length row"
  shows "NLLLoss (replicate n row) (replicate n y) = Inr (- (row ! y))"
proof -
  have "list_all2 (\<lambda>row y. y < length row) (replicate n row) (replicate n y)"
    using assms(2) by (simp add: list_all2_iff set_zip)
  then have "NLLLoss (replicate n row) (replicate n y) =
      Inr (- sum_list (map2 (\<lambda>row y. row ! y) (replicate n row) (replicate n y))
             / real (length (replicate n row)))"
    using assms(1) by (intro NLLLoss_ok) auto
  then show ?thesis using assms(1) by (simp add: sum_list_replicate)
qed

lemma exp_lower: "1 + x \<le> exp (x::real)"
  by (rule exp_ge_add_one_self)

text \<open>
  C8 as stated fails for freshly initialised parameters, which are random and not zero.
  With every parameter inside the range of a fresh layer, a hidden bias of \<open>-1/100\<close> and
  the output bias \<open>(-0.08, 0.08, \<dots>, 0.08)\<close>, the loss of the all-zero batch labelled 0
  exceeds \<open>ln 10\<close> by more than \<open>10\<^sup>-\<^sup>3\<close>.
\<close>

theorem fresh_network_loss_counterexample:
  "fresh_Linear 784 128 (Linear (replicate 128 (replicate 784 (1/100))) (replicate 128 (-1/100)))
   \<and> fresh_Linear 128 10 (Linear (replicate 10 (replicate 128 (1/20))) ((-2/25) # replicate 9 (2/25)))
   \<and> forward_loss CrossEntropyLoss
        [Linear (replicate 128 (replicate 784 (1/100))) (replicate 128 (-1/100)), ReLU,
         Linear (replicate 10 (replicate 128 (1/20))) ((-2/25) # replicate 9 (2/25))]
        (replicate 64 (replicate 784 0)) (replicate 64 0)
      = Inr (2/25 + ln (exp (-2/25) + 9 * exp (2/25)))
   \<and> (1/1000 :: real) < (2/25 + ln (exp (-2/25) + 9 * exp (2/25))) - ln 10"
proof -
  let ?b2 = "(-2/25) # replicate 9 (2/25) :: vec"
  let ?l1 = "Linear (replicate 128 (replicate 784 (1/100))) (replicate 128 (-1/100))"
  let ?l2 = "Linear (replicate 10 (replicate 128 (1/20))) ?b2"
  have f1: "fresh_Linear 784 128 ?l1"
    by (simp add: fresh_Linear_def is_Linear_def list_all_iff)
  have f2: "fresh_Linear 128 10 ?l2"
    by (simp add: fresh_Linear_def is_Linear_def list_all_iff)
  have fwd: "Sequential [?l1, ReLU, ?l2] (replicate 64 (replicate 784 0)) = Inr (replicate 64 ?b2)"
    using f1 f2 by (intro two_layer_zero_images) (simp_all add: fresh_Linear_def list_all_iff)
  have S: "sum_list (map exp ?b2) = exp (-2/25) + 9 * exp (2/25)"
    by (simp add: sum_list_replicate)
  have Spos: "0 < exp (-2/25) + 9 * exp (2/25 :: real)"
    by (simp add: add_pos_pos)
  have "log_softmax_row ?b2 = map ln (softmax_row ?b2)"
    by (rule log_softmax_row_eq) simp
  then have "log_softmax_row ?b2 ! 0 = ln (exp (-2/25) / (exp (-2/25) + 9 * exp (2/25)))"
    unfolding softmax_row_def S by simp
  also have "\<dots> = - 2/25 - ln (exp (-2/25) + 9 * exp (2/25))"
    using Spos by (simp add: ln_div)
  finally have pick: "log_softmax_row ?b2 ! 0 = - 2/25 - ln (exp (-2/25) + 9 * exp (2/25))" .
  have len: "0 < length (log_softmax_row ?b2)"
    by (simp add: log_softmax_row_def Let_def)
  have "NLLLoss (replicate 64 (log_softmax_row ?b2)) (replicate 64 0)
          = Inr (- (log_softmax_row ?b2 ! 0))"
    using len by (intro NLLLoss_same_rows) simp_all
  with pick have "NLLLoss (replicate 64 (log_softmax_row ?b2)) (replicate 64 0)
          = Inr (2/25 + ln (exp (-2/25) + 9 * exp (2/25)))"
    by simp
  then have loss: "forward_loss CrossEntropyLoss [?l1, ReLU, ?l2]
        (replicate 64 (replicate 784 0)) (replicate 64 0)
      = Inr (2/25 + ln (exp (-2/25) + 9 * exp (2/25)))"
    unfolding forward_loss_def fwd by (simp add: CrossEntropyLoss_def log_softmax_def)
  have e1: "1 + (-2/25) \<le> exp (-2/25 :: real)" by (rule exp_lower)
  have e2: "1 + 2/25 \<le> exp (2/25 :: real)" by (rule exp_lower)
  have "(10::real) \<le> exp (-2/25) + 9 * exp (2/25)" using e1 e2 by simp
  then have "ln 10 \<le> ln (exp (-2/25) + 9 * exp (2/25 :: real))"
    by (subst ln_le_cancel_iff) simp_all
  then have gap: "1/1000 < (2/25 + ln (exp (-2/25) + 9 * exp (2/25 :: real))) - ln 10"
    by simp
  show ?thesis using f1 f2 loss gap by simp
qed


lemma Sequential_append:
  "Sequential (ls @ ms) x = (case Sequential ls x of Inl e \<Rightarrow> Inl e | Inr h \<Rightarrow> Sequential ms h)"
  by (induction ls arbitrary: x) (simp_all split: sum.splits)

lemma Sequential_ends_in_Linear:
  "Sequential (ls @ [Linear w b]) x =
     (case Sequential ls x of Inl e \<Rightarrow> Inl e | Inr h \<Rightarrow> F_linear w b h)"
  by (simp add: Sequential_append split: sum.splits)

text \<open>
  C3.  \<^verbatim>\<open>Network.forward\<close> of Part 2 rectifies the output of its final layer: with
  all weights zero and the final bias \<open>(-1, 0, \<dots>, 0)\<close>, the final affine output has a
  negative entry, the network returns the uniform distribution, and the softmax of the
  affine output itself is a different distribution.
\<close>

theorem Network_forward_rectifies_final_layer:
  "Network_fc3
     \<lparr>fc1 = Linear (replicate 128 (replicate 784 0)) (replicate 128 0),
      fc2 = Linear (replicate 64 (replicate 128 0)) (replicate 64 0),
      fc3 = Linear (replicate 10 (replicate 64 0)) ((-1) # replicate 9 0)\<rparr>
     (replicate 64 (replicate 784 0))
   = Inr (replicate 64 ((-1) # replicate 9 0))
   \<and> Network_forward
     \<lparr>fc1 = Linear (replicate 128 (replicate 784 0)) (replicate 128 0),
      fc2 = Linear (replicate 64 (replicate 128 0)) (replicate 64 0),
      fc3 = Linear (replicate 10 (replicate 64 0)) ((-1) # replicate 9 0)\<rparr>
     (replicate 64 (replicate 784 0))
   = Inr (replicate 64 (replicate 10 (1/10)))
   \<and> softmax (replicate 64 ((-1) # replicate 9 0)) \<noteq> replicate 64 (replicate 10 (1/10))"
proof -
  let ?b3 = "(-1) # replicate 9 0 :: vec"
  have l1: "F_linear (replicate 128 (replicate 784 0)) (replicate 128 0)
              (replicate 64 (replicate 784 0)) = Inr (replicate 64 (replicate 128 0))"
    by (rule linear_zeros) (simp add: is_Linear_def list_all_iff)
  have l2: "F_linear (replicate 64 (replicate 128 0)) (replicate 64 0)
              (replicate 64 (replicate 128 0)) = Inr (replicate 64 (replicate 64 0))"
    by (rule linear_zeros) (simp add: is_Linear_def list_all_iff)
  have l3: "F_linear (replicate 10 (replicate 64 0)) ?b3
              (replicate 64 (replicate 64 0)) = Inr (replicate 64 ?b3)"
    by (rule linear_zeros) (simp add: is_Linear_def list_all_iff)
  have fc3: "Network_fc3
     \<lparr>fc1 = Linear (replicate 128 (replicate 784 0)) (replicate 128 0),
      fc2 = Linear (replicate 64 (replicate 128 0)) (replicate 64 0),
      fc3 = Linear (replicate 10 (replicate 64 0)) ?b3\<rparr>
     (replicate 64 (replicate 784 0)) = Inr (replicate 64 ?b3)"
    by (simp add: Network_fc3_def l1 relu_zeros l2 l3)
  have r3: "relu (replicate 64 ?b3) = replicate 64 (replicate 10 0)"
    using relu_nonpos [of ?b3 64] by (simp add: list_all_iff)
  have sm: "softmax (replicate 64 (replicate 10 0)) = replicate 64 (replicate 10 (1/10))"
    using softmax_row_const [of 10 0] by (simp add: softmax_rows)
  have fwd: "Network_forward
     \<lparr>fc1 = Linear (replicate 128 (replicate 784 0)) (replicate 128 0),
      fc2 = Linear (replicate 64 (replicate 128 0)) (replicate 64 0),
      fc3 = Linear (replicate 10 (replicate 64 0)) ?b3\<rparr>
     (replicate 64 (replicate 784 0)) = Inr (replicate 64 (replicate 10 (1/10)))"
    unfolding Network_forward_def fc3 by (simp add: r3 sm)
  have S: "sum_list (map exp ?b3) = exp (-1) + 9"
    by (simp add: sum_list_replicate)
  have e: "exp (-1 :: real) \<noteq> 1" by simp
  have pos: "0 < exp (-1 :: real) + 9" by (simp add: add_pos_pos)
  have "exp (-1) / (exp (-1) + 9) \<noteq> (1/10 :: real)"
    using e pos by (simp add: field_simps)
  then have "softmax_row ?b3 ! 0 \<noteq> replicate 10 (1/10) ! 0"
    unfolding softmax_row_def S by simp
  then have "softmax_row ?b3 \<noteq> replicate 10 (1/10)" by metis
  then have ne: "softmax (replicate 64 ?b3) \<noteq> replicate 64 (replicate 10 (1/10))"
    by (simp add: softmax_rows)
  show ?thesis using fc3 fwd ne by simp
qed

section \<open>The optimizer step\<close>


lemma nth_sgd_vec:
  "length gb = length b \<Longrightarrow> m < length b \<Longrightarrow>
   sgd_vec lr b (Some gb) ! m = b ! m - lr * gb ! m"
  by (simp add: sgd_vec_def)

lemma length_sgd_vec: "length gb = length b \<Longrightarrow> length (sgd_vec lr b (Some gb)) = length b"
  by (simp add: sgd_vec_def)

lemma length_sgd_mat: "length gw = length w \<Longrightarrow> length (sgd_mat lr w (Some gw)) = length w"
  by (simp add: sgd_mat_def)

lemma nth_sgd_mat_row:
  "length gw = length w \<Longrightarrow> j < length w \<Longrightarrow>
   sgd_mat lr w (Some gw) ! j = map2 (\<lambda>p q. p - lr * q) (w ! j) (gw ! j)"
  by (simp add: sgd_mat_def)

lemma optimizer_step_nth:
  "i < length st \<Longrightarrow> optimizer_step lr st ! i = step_layer lr (st ! i)"
  by (simp add: optimizer_step_def)

lemma step_layer_no_parameters: "\<not> has_parameters pl \<Longrightarrow> step_layer lr pl = pl"
  by (cases "nn_module pl") (simp_all add: step_layer_def has_parameters_def)

text \<open>
  C2.  One optimizer step replaces every entry of the weight matrix and of the bias vector
  of a layer by old value \<open>-\<close> learning rate \<open>\<times>\<close> gradient, entry by entry, for every
  learning rate (so for every positive one).  Shapes, the gradients themselves, the number
  of layers and every layer without parameters stay as they were.
\<close>

theorem sgd_step_elementwise:
  assumes "i < length st"
    and "nn_module (st ! i) = Linear w b"
    and "weight_grad (st ! i) = Some gw"
    and "bias_grad (st ! i) = Some gb"
    and "length gw = length w"
    and "list_all2 (\<lambda>r g. length g = length r) w gw"
    and "length gb = length b"
    and "j < length w" and "k < length (w ! j)" and "m < length b"
  shows "length (optimizer_step lr st) = length st
       \<and> has_parameters (optimizer_step lr st ! i)
       \<and> length (weight (nn_module (optimizer_step lr st ! i))) = length w
       \<and> length (weight (nn_module (optimizer_step lr st ! i)) ! j) = length (w ! j)
       \<and> length (bias (nn_module (optimizer_step lr st ! i))) = length b
       \<and> weight (nn_module (optimizer_step lr st ! i)) ! j ! k = w ! j ! k - lr * gw ! j ! k
       \<and> bias (nn_module (optimizer_step lr st ! i)) ! m = b ! m - lr * gb ! m
       \<and> weight_grad (optimizer_step lr st ! i) = Some gw
       \<and> bias_grad (optimizer_step lr st ! i) = Some gb
       \<and> (\<forall>n<length st. \<not> has_parameters (st ! n) \<longrightarrow> optimizer_step lr st ! n = st ! n)"
proof -
  have new: "optimizer_step lr st ! i =
      (st ! i)\<lparr>nn_module := Linear (sgd_mat lr w (Some gw)) (sgd_vec lr b (Some gb))\<rparr>"
    using assms(1-4) by (simp add: optimizer_step_nth step_layer_def)
  have row: "length (gw ! j) = length (w ! j)"
    using assms(6,8) by (simp add: list_all2_conv_all_nth)
  have wrow: "sgd_mat lr w (Some gw) ! j = map2 (\<lambda>p q. p - lr * q) (w ! j) (gw ! j)"
    using assms(5,8) by (rule nth_sgd_mat_row)
  have frame: "\<forall>n<length st. \<not> has_parameters (st ! n) \<longrightarrow> optimizer_step lr st ! n = st ! n"
    by (simp add: optimizer_step_nth step_layer_no_parameters)
  have len: "length (optimizer_step lr st) = length st"
    by (simp add: optimizer_step_def)
  show ?thesis
    using assms(3,4,5,7,8,9,10) row frame len
    by (simp add: new wrow has_parameters_def length_sgd_mat length_sgd_vec nth_sgd_vec)
qed

theorem sgd_step_elementwise_witness:
  "optimizer_step (1/10)
     [\<lparr>nn_module = Linear [[1, 2], [3, 4]] [5, 6],
       weight_grad = Some [[10, 20], [30, 40]], bias_grad = Some [50, 60]\<rparr>,
      \<lparr>nn_module = ReLU, weight_grad = None, bias_grad = None\<rparr>]
   = [\<lparr>nn_module = Linear [[0, 0], [0, 0]] [0, 0],
       weight_grad = Some [[10, 20], [30, 40]], bias_grad = Some [50, 60]\<rparr>,
      \<lparr>nn_module = ReLU, weight_grad = None, bias_grad = None\<rparr>]
   \<and> weight (nn_module (optimizer_step (1/10)
     [\<lparr>nn_module = Linear [[1, 2], [3, 4]] [5, 6],
       weight_grad = Some [[10, 20], [30, 40]], bias_grad = Some [50, 60]\<rparr>,
      \<lparr>nn_module = ReLU, weight_grad = None, bias_grad = None\<rparr>] ! 0)) ! 1 ! 0 = 3 - (1/10) * 30"
  using sgd_step_elementwise
    [of 0 "[\<lparr>nn_module = Linear [[1, 2], [3, 4]] [5, 6],
       weight_grad = Some [[10, 20], [30, 40]], bias_grad = Some [50, 60]\<rparr>,
      \<lparr>nn_module = ReLU, weight_grad = None, bias_grad = None\<rparr>]"
      "[[1, 2], [3, 4]]" "[5, 6]" "[[10, 20], [30, 40]]" "[50, 60]" 1 0 1 "1/10"]
  by (simp add: optimizer_step_def step_layer_def sgd_mat_def sgd_vec_def)

section \<open>Shapes: flattening, resizing and the forward pass\<close>



lemma rows_of_replicate: "rows_of n k (replicate (n * k) v) = replicate n (replicate k v)"
proof (induction n)
  case 0
  show ?case by simp
next
  case (Suc n)
  have "drop k (replicate (Suc n * k) v) = replicate (n * k) v" by simp
  moreover have "take k (replicate (Suc n * k) v) = replicate k v" by simp
  ultimately show ?case using Suc.IH by (simp del: mult_Suc)
qed





lemma NLLLoss_returns:
  assumes "logps \<noteq> []" "length labels = length logps"
    and "list_all (\<lambda>r. length r = k) logps" "list_all (\<lambda>y. y < k) labels"
  shows "\<exists>loss. NLLLoss logps labels = Inr loss"
proof -
  have "\<not> list_ex (\<lambda>(row, y). length row \<le> y) (zip logps labels)"
  proof
    assume "list_ex (\<lambda>(row, y). length row \<le> y) (zip logps labels)"
    then obtain row y where m: "(row, y) \<in> set (zip logps labels)" and le: "length row \<le> y"
      by (auto simp: list_ex_iff)
    from m have "row \<in> set logps" "y \<in> set labels"
      by (auto dest: set_zip_leftD set_zip_rightD)
    with assms(3,4) have "length row = k" "y < k" by (auto simp: list_all_iff)
    with le show False by simp
  qed
  then show ?thesis using assms(1,2) by (simp add: NLLLoss_def)
qed




lemma mnist_zero_images:
  assumes "is_Linear 784 128 (Linear w1 b1)" "is_Linear 128 64 (Linear w2 b2)"
    and "is_Linear 64 10 (Linear w3 b3)"
    and "list_all (\<lambda>v. v \<le> 0) b1" "list_all (\<lambda>v. v \<le> 0) b2"
  shows "Sequential (mnist_model w1 b1 w2 b2 w3 b3) (replicate n (replicate 784 0))
           = Inr (replicate n (log_softmax_row b3))"
proof -
  have l1: "F_linear w1 b1 (replicate n (replicate 784 0)) = Inr (replicate n b1)"
    using assms(1) by (rule linear_zeros)
  have r1: "relu (replicate n b1) = replicate n (replicate 128 0)"
    using relu_nonpos [OF assms(4)] assms(1) by (simp add: is_Linear_def)
  have l2: "F_linear w2 b2 (replicate n (replicate 128 0)) = Inr (replicate n b2)"
    using assms(2) by (rule linear_zeros)
  have r2: "relu (replicate n b2) = replicate n (replicate 64 0)"
    using relu_nonpos [OF assms(5)] assms(2) by (simp add: is_Linear_def)
  have l3: "F_linear w3 b3 (replicate n (replicate 64 0)) = Inr (replicate n b3)"
    using assms(3) by (rule linear_zeros)
  show ?thesis
    by (simp add: mnist_model_def l1 r1 l2 r2 l3 log_softmax_def)
qed

lemma zero_mnist_model_forward:
  "Sequential zero_mnist_model (replicate n (replicate 784 0))
     = Inr (replicate n (replicate 10 (- ln 10)))"
proof -
  have "Sequential zero_mnist_model (replicate n (replicate 784 0))
          = Inr (replicate n (log_softmax_row (replicate 10 0)))"
    unfolding zero_mnist_model_def
    by (rule mnist_zero_images) (simp_all add: is_Linear_def list_all_iff)
  then show ?thesis using log_softmax_row_const [of 10 0] by simp
qed









section \<open>The training loop: the reported loss\<close>


lemma NLLLoss_Inr:
  assumes "NLLLoss logps labels = Inr loss"
  shows "length logps = length labels \<and> logps \<noteq> []
       \<and> loss = mean (nll_per_example logps labels)
       \<and> length (nll_per_example logps labels) = length labels"
proof -
  have len: "length logps = length labels" and ne: "logps \<noteq> []"
    and loss: "loss = - sum_list (map2 (\<lambda>row y. row ! y) logps labels) / real (length logps)"
    using assms by (auto simp: NLLLoss_def split: if_splits)
  have "sum_list (map2 (\<lambda>row y. - (row ! y)) logps labels)
          = - sum_list (map2 (\<lambda>row y. row ! y) logps labels)"
    using len by (induction logps labels rule: list_induct2) simp_all
  then show ?thesis using len ne loss by (simp add: mean_def nll_per_example_def)
qed

lemma training_pass_Inr:
  assumes "training_pass ag lr st b = Inr (st', tr)"
  shows "loss_item tr = mean (example_losses tr)
       \<and> example_losses tr \<noteq> []
       \<and> length (example_losses tr) = length (snd b)
       \<and> before_backward tr = zero_grad st
       \<and> st' = optimizer_step lr (at_step tr)"
proof -
  obtain images where v: "view_flat (fst b) = Inr images"
    using assms by (auto simp: training_pass_def split: sum.splits)
  obtain out where f: "Sequential (map nn_module (zero_grad st)) images = Inr out"
    using assms v by (auto simp: training_pass_def Let_def split: sum.splits)
  obtain loss where l: "NLLLoss out (snd b) = Inr loss"
    using assms v f by (auto simp: training_pass_def Let_def split: sum.splits)
  have tr: "tr = \<lparr>before_backward = zero_grad st,
                   batch_gradient =
                     map (ag (map nn_module (zero_grad st)) images (snd b)) [0..<length (zero_grad st)],
                   at_step = backward ag images (snd b) (zero_grad st),
                   loss_item = loss,
                   example_losses = nll_per_example out (snd b)\<rparr>"
    and st': "st' = optimizer_step lr (backward ag images (snd b) (zero_grad st))"
    using assms v f l by (simp_all add: training_pass_def Let_def)
  from NLLLoss_Inr [OF l] have "loss = mean (nll_per_example out (snd b))"
    "length (nll_per_example out (snd b)) = length (snd b)" "out \<noteq> []"
    "length out = length (snd b)" by simp_all
  then show ?thesis using tr st' by auto
qed

lemma epoch_loop_Inr:
  "epoch_loop ag lr st bs rl = Inr (st', rl_end, trs) \<Longrightarrow>
   rl_end = rl + sum_list (map loss_item trs)
   \<and> list_all2 (\<lambda>tr b. length (example_losses tr) = length (snd b)) trs bs
   \<and> list_all (\<lambda>tr. loss_item tr = mean (example_losses tr) \<and> example_losses tr \<noteq> []) trs"
proof (induction bs arbitrary: st rl trs)
  case Nil
  then show ?case by simp
next
  case (Cons b bs)
  from Cons.prems obtain st1 tr where p: "training_pass ag lr st b = Inr (st1, tr)"
    by (auto split: sum.splits)
  from Cons.prems p obtain trs' where
    rest: "epoch_loop ag lr st1 bs (rl + loss_item tr) = Inr (st', rl_end, trs')"
    and trs: "trs = tr # trs'"
    by (auto split: sum.splits)
  from Cons.IH [OF rest] training_pass_Inr [OF p] trs show ?case by simp
qed

lemma run_epoch_Inr:
  assumes "run_epoch ag lr st bs = Inr (st', et)"
  shows "bs \<noteq> []
       \<and> printed et = sum_list (map loss_item (passes et)) / real (length bs)
       \<and> list_all2 (\<lambda>tr b. length (example_losses tr) = length (snd b)) (passes et) bs
       \<and> list_all (\<lambda>tr. loss_item tr = mean (example_losses tr) \<and> example_losses tr \<noteq> [])
            (passes et)"
proof -
  from assms obtain rl_end trs where
    l: "epoch_loop ag lr st bs 0 = Inr (st', rl_end, trs)" and ne: "bs \<noteq> []"
    and et: "et = \<lparr>passes = trs, printed = rl_end / real (length bs)\<rparr>"
    by (auto simp: run_epoch_def split: sum.splits if_splits)
  from epoch_loop_Inr [OF l] et ne show ?thesis by simp
qed

lemma mean_of_equal_batches:
  assumes "0 < n" "xss \<noteq> []" "list_all (\<lambda>xs. length xs = n) xss"
  shows "sum_list (map mean xss) / real (length xss) = mean (concat xss)"
proof -
  have len: "length (concat xss) = length xss * n"
    using assms(3) by (induction xss) simp_all
  have "sum_list (map mean xss) = sum_list (concat xss) / real n"
    using assms(3) by (induction xss) (simp_all add: mean_def add_divide_distrib)
  then show ?thesis using assms(1,2) by (simp add: mean_def len)
qed

lemma epochs_loop_Inr:
  "epochs_loop ag lr trainloader st es = Inr (st', ets) \<Longrightarrow>
   length ets = length es
   \<and> (\<forall>i<length es. \<exists>s s'. run_epoch ag lr s (trainloader (es ! i)) = Inr (s', ets ! i))"
proof (induction es arbitrary: st ets)
  case Nil
  then show ?case by simp
next
  case (Cons e es)
  from Cons.prems obtain st1 et where r: "run_epoch ag lr st (trainloader e) = Inr (st1, et)"
    by (auto split: sum.splits)
  from Cons.prems r obtain ets' where
    rest: "epochs_loop ag lr trainloader st1 es = Inr (st', ets')" and ets: "ets = et # ets'"
    by (auto split: sum.splits)
  from Cons.IH [OF rest] have len: "length ets' = length es"
    and all: "\<forall>i<length es. \<exists>s s'. run_epoch ag lr s (trainloader (es ! i)) = Inr (s', ets' ! i)"
    by simp_all
  have "\<exists>s s'. run_epoch ag lr s (trainloader ((e # es) ! i)) = Inr (s', ets ! i)"
    if "i < length (e # es)" for i
  proof (cases i)
    case 0
    then show ?thesis using r ets by auto
  next
    case (Suc k)
    then show ?thesis using that all ets by simp
  qed
  then show ?case using len ets by simp
qed

text \<open>
  C9 (as amended).  When training returns, the number printed for every epoch is the sum
  of the per-batch losses of that epoch divided by the number of batches,
  \<^verbatim>\<open>len(trainloader)\<close>; every per-batch loss is the mean of the losses of the examples of
  its batch; and when all batches of the epoch have the same size the printed number is
  also the mean loss per example of the epoch.
\<close>

theorem epoch_report_is_mean_batch_loss:
  assumes "train ag lr trainloader epochs model = Inr (st', ets)"
    and "e < epochs"
  shows "length ets = epochs
       \<and> length (passes (ets ! e)) = length (trainloader e)
       \<and> trainloader e \<noteq> []
       \<and> printed (ets ! e)
           = sum_list (map loss_item (passes (ets ! e))) / real (length (trainloader e))
       \<and> list_all2 (\<lambda>tr b. length (example_losses tr) = length (snd b))
           (passes (ets ! e)) (trainloader e)
       \<and> list_all (\<lambda>tr. loss_item tr = mean (example_losses tr)) (passes (ets ! e))
       \<and> (0 < n \<and> list_all (\<lambda>b. length (snd b) = n) (trainloader e)
            \<longrightarrow> printed (ets ! e) = mean (epoch_examples (ets ! e)))"
proof -
  from assms(1) have loop: "epochs_loop ag lr trainloader (fresh_model model) [0..<epochs] = Inr (st', ets)"
    by (simp add: train_def)
  from epochs_loop_Inr [OF loop] assms(2) obtain s s' where
    len: "length ets = epochs" and r: "run_epoch ag lr s (trainloader e) = Inr (s', ets ! e)"
    by auto
  let ?et = "ets ! e"
  from run_epoch_Inr [OF r] have ne: "trainloader e \<noteq> []"
    and pr: "printed ?et = sum_list (map loss_item (passes ?et)) / real (length (trainloader e))"
    and sz: "list_all2 (\<lambda>tr b. length (example_losses tr) = length (snd b)) (passes ?et) (trainloader e)"
    and mn: "list_all (\<lambda>tr. loss_item tr = mean (example_losses tr) \<and> example_losses tr \<noteq> []) (passes ?et)"
    by simp_all
  have plen: "length (passes ?et) = length (trainloader e)"
    using sz by (rule list_all2_lengthD)
  have mn': "list_all (\<lambda>tr. loss_item tr = mean (example_losses tr)) (passes ?et)"
    using mn by (simp add: list_all_iff)
  have eq: "printed ?et = mean (epoch_examples ?et)"
    if n: "0 < n" and all: "list_all (\<lambda>b. length (snd b) = n) (trainloader e)"
  proof -
    have same: "list_all (\<lambda>xs. length xs = n) (map example_losses (passes ?et))"
      unfolding list_all_iff
    proof
      fix xs assume "xs \<in> set (map example_losses (passes ?et))"
      then obtain i where i: "i < length (passes ?et)" and xs: "xs = example_losses (passes ?et ! i)"
        by (auto simp: in_set_conv_nth)
      from sz i have "length (example_losses (passes ?et ! i)) = length (snd (trainloader e ! i))"
        by (simp add: list_all2_conv_all_nth)
      moreover have "length (snd (trainloader e ! i)) = n"
        using all i plen by (simp add: list_all_iff)
      ultimately show "length xs = n" using xs by simp
    qed
    have "map loss_item (passes ?et) = map (\<lambda>tr. mean (example_losses tr)) (passes ?et)"
      using mn' by (intro map_cong) (simp_all add: list_all_iff)
    then have "map loss_item (passes ?et) = map mean (map example_losses (passes ?et))"
      by (simp add: comp_def)
    then have "printed ?et
        = sum_list (map mean (map example_losses (passes ?et)))
            / real (length (map example_losses (passes ?et)))"
      using pr plen by (simp only: length_map)
    also have "\<dots> = mean (concat (map example_losses (passes ?et)))"
      using n ne plen same by (intro mean_of_equal_batches) auto
    finally show ?thesis by (simp add: epoch_examples_def)
  qed
  show ?thesis using len plen ne pr sz mn' eq by blast
qed

section \<open>The training loop: gradients before each backward pass\<close>

lemma zero_grad_clear: "list_all grads_clear (zero_grad st)"
  by (auto simp: zero_grad_def grads_clear_def is_zero_mat_def is_zero_vec_def list_all_iff
      split: option.splits)

lemma backward_nth:
  "i < length st \<Longrightarrow>
   backward ag x y st ! i = backward_layer (ag (map nn_module st) x y i) (st ! i)"
  by (simp add: backward_def nth_enumerate_eq)

lemma length_backward: "length (backward ag x y st) = length st"
  by (simp add: backward_def)

lemma add_zero_vec: "is_zero_vec z \<Longrightarrow> map2 (+) z g = take (length z) g"
proof (induction z arbitrary: g)
  case Nil
  show ?case by simp
next
  case (Cons a z)
  then show ?case by (cases g) (simp_all add: is_zero_vec_def)
qed

lemma backward_layer_module: "nn_module (backward_layer g pl) = nn_module pl"
  by (cases "nn_module pl") (simp_all add: backward_layer_def)

text \<open>
  Storing a gradient into a missing buffer is adding it to a buffer of zeros of its shape.
\<close>

lemma accumulate_missing:
  "accumulate_vec None g = accumulate_vec (Some (map (\<lambda>_. 0) g)) g"
  "accumulate_mat None m = accumulate_mat (Some (map (map (\<lambda>_. 0)) m)) m"
proof -
  have v: "map2 (+) (map (\<lambda>_. 0) g) g = g" for g :: vec
    by (induction g) simp_all
  have "map2 (map2 (+)) (map (map (\<lambda>_. 0)) m) m = m"
    by (induction m) (simp_all add: v)
  then show "accumulate_mat None m = accumulate_mat (Some (map (map (\<lambda>_. 0)) m)) m"
    by (simp add: accumulate_mat_def)
  show "accumulate_vec None g = accumulate_vec (Some (map (\<lambda>_. 0) g)) g"
    by (simp add: accumulate_vec_def v)
qed

lemma add_zero_vec_eq: "is_zero_vec z \<Longrightarrow> length z = length g \<Longrightarrow> map2 (+) z g = g"
  using add_zero_vec [of z g] by simp

lemma add_zero_mat_eq:
  "is_zero_mat z \<Longrightarrow> map length z = map length g \<Longrightarrow> map2 (map2 (+)) z g = g"
proof (induction z arbitrary: g)
  case Nil
  then show ?case by simp
next
  case (Cons a z)
  from Cons.prems(2) obtain r g' where g: "g = r # g'" by (cases g) auto
  from Cons.prems(1) have za: "is_zero_vec a" and zz: "is_zero_mat z"
    by (simp_all add: is_zero_mat_def is_zero_vec_def)
  from Cons.prems(2) g have la: "length a = length r" and lz: "map length z = map length g'"
    by simp_all
  show ?case using add_zero_vec_eq [OF za la] Cons.IH [OF zz lz] g by simp
qed

lemma map_length_map2:
  "map length a = map length b \<Longrightarrow> map length (map2 (map2 f) a b) = map length a"
proof (induction a arbitrary: b)
  case Nil
  then show ?case by simp
next
  case (Cons x a)
  then obtain y b' where b: "b = y # b'" by (cases b) auto
  with Cons.prems have "length x = length y" "map length a = map length b'" by simp_all
  then show ?case using Cons.IH [of b'] b by simp
qed

lemma fresh_model_shaped: "list_all grads_shaped (fresh_model m)"
  by (simp add: fresh_model_def grads_shaped_def list_all_iff split: layer.splits)

lemma zero_grad_shaped: "list_all grads_shaped st \<Longrightarrow> list_all grads_shaped (zero_grad st)"
  by (auto simp: zero_grad_def grads_shaped_def list_all_iff comp_def
           split: layer.splits option.splits)

lemma sgd_mat_shape:
  "(case g of None \<Rightarrow> True | Some d \<Rightarrow> map length d = map length w) \<Longrightarrow>
   map length (sgd_mat lr w g) = map length w"
  unfolding sgd_mat_def
  by (cases g) (simp_all only: option.case map_length_map2 [of w _, OF sym])

lemma sgd_vec_shape:
  "(case g of None \<Rightarrow> True | Some d \<Rightarrow> length d = length b) \<Longrightarrow>
   length (sgd_vec lr b g) = length b"
  by (cases g) (simp_all add: sgd_vec_def)

lemma step_layer_shaped:
  assumes "grads_shaped pl"
  shows "grads_shaped (step_layer lr pl)"
proof (cases "nn_module pl")
  case (Linear w b)
  from assms Linear
  have gw: "case weight_grad pl of None \<Rightarrow> True | Some d \<Rightarrow> map length d = map length w"
    and gb: "case bias_grad pl of None \<Rightarrow> True | Some d \<Rightarrow> length d = length b"
    by (simp_all add: grads_shaped_def)
  have "step_layer lr pl
          = pl\<lparr>nn_module := Linear (sgd_mat lr w (weight_grad pl)) (sgd_vec lr b (bias_grad pl))\<rparr>"
    by (simp add: step_layer_def Linear)
  then show ?thesis
    using gw gb sgd_mat_shape [OF gw, of lr] sgd_vec_shape [OF gb, of lr]
    by (simp add: grads_shaped_def split: option.splits)
next
  case ReLU
  then show ?thesis using assms by (simp add: step_layer_def)
next
  case Softmax
  then show ?thesis using assms by (simp add: step_layer_def)
next
  case LogSoftmax
  then show ?thesis using assms by (simp add: step_layer_def)
qed

lemma optimizer_step_shaped:
  "list_all grads_shaped st \<Longrightarrow> list_all grads_shaped (optimizer_step lr st)"
  by (simp add: optimizer_step_def list_all_iff step_layer_shaped)

lemma backward_layer_exact:
  assumes "grads_clear pl" "grads_shaped pl" "nn_module pl = Linear w b"
    and "map length (fst g) = map length w" "length (snd g) = length b"
  shows "weight_grad (backward_layer g pl) = Some (fst g)"
    and "bias_grad (backward_layer g pl) = Some (snd g)"
proof -
  have "accumulate_mat (weight_grad pl) (fst g) = Some (fst g)"
  proof (cases "weight_grad pl")
    case None
    then show ?thesis by (simp add: accumulate_mat_def)
  next
    case (Some z)
    with assms(1) have "is_zero_mat z" by (simp add: grads_clear_def)
    moreover from Some assms(2,3,4) have "map length z = map length (fst g)"
      by (simp add: grads_shaped_def)
    ultimately show ?thesis using Some by (simp add: accumulate_mat_def add_zero_mat_eq)
  qed
  then show "weight_grad (backward_layer g pl) = Some (fst g)"
    by (simp add: backward_layer_def assms(3))
  have "accumulate_vec (bias_grad pl) (snd g) = Some (snd g)"
  proof (cases "bias_grad pl")
    case None
    then show ?thesis by (simp add: accumulate_vec_def)
  next
    case (Some z)
    with assms(1) have "is_zero_vec z" by (simp add: grads_clear_def)
    moreover from Some assms(2,3,5) have "length z = length (snd g)"
      by (simp add: grads_shaped_def)
    ultimately show ?thesis using Some by (simp add: accumulate_vec_def add_zero_vec_eq)
  qed
  then show "bias_grad (backward_layer g pl) = Some (snd g)"
    by (simp add: backward_layer_def assms(3))
qed

lemma gradient_shapedD:
  assumes "gradient_shaped ag" "i < length ms" "ms ! i = Linear w b"
  shows "map length (fst (ag ms images labels i)) = map length w
       \<and> length (snd (ag ms images labels i)) = length b"
proof -
  from assms(1) have "i < length ms \<longrightarrow>
     (case ms ! i of
        Linear w b \<Rightarrow>
          map length (fst (ag ms images labels i)) = map length w \<and>
          length (snd (ag ms images labels i)) = length b
      | _ \<Rightarrow> True)"
    unfolding gradient_shaped_def by blast
  with assms(2,3) show ?thesis by simp
qed

lemma training_pass_gradients:
  assumes "training_pass ag lr st b = Inr (st', tr)"
    and "gradient_shaped ag" "list_all grads_shaped st"
  shows "list_all grads_clear (before_backward tr)
       \<and> uses_batch_gradient tr
       \<and> list_all grads_shaped st'"
proof -
  obtain images where v: "view_flat (fst b) = Inr images"
    using assms(1) by (auto simp: training_pass_def split: sum.splits)
  obtain out where f: "Sequential (map nn_module (zero_grad st)) images = Inr out"
    using assms(1) v by (auto simp: training_pass_def Let_def split: sum.splits)
  obtain loss where l: "NLLLoss out (snd b) = Inr loss"
    using assms(1) v f by (auto simp: training_pass_def Let_def split: sum.splits)
  let ?st1 = "zero_grad st"
  let ?g = "ag (map nn_module ?st1) images (snd b)"
  have before: "before_backward tr = ?st1"
    and grad: "batch_gradient tr = map ?g [0..<length ?st1]"
    and at: "at_step tr = backward ag images (snd b) ?st1"
    and st': "st' = optimizer_step lr (backward ag images (snd b) ?st1)"
    using assms(1) v f l by (auto simp: training_pass_def Let_def)
  have clear: "list_all grads_clear ?st1" by (rule zero_grad_clear)
  have shaped: "list_all grads_shaped ?st1" using assms(3) by (rule zero_grad_shaped)
  have layer_i:
    "(\<not> has_parameters (backward_layer (?g i) (?st1 ! i))
       \<or> (weight_grad (backward_layer (?g i) (?st1 ! i)) = Some (fst (?g i))
          \<and> bias_grad (backward_layer (?g i) (?st1 ! i)) = Some (snd (?g i))))
     \<and> grads_shaped (backward_layer (?g i) (?st1 ! i))"
    if i: "i < length ?st1" for i
  proof (cases "nn_module (?st1 ! i)")
    case (Linear w b')
    have c: "grads_clear (?st1 ! i)" using clear i by (simp add: list_all_length)
    have s: "grads_shaped (?st1 ! i)" using shaped i by (simp add: list_all_length)
    have "map nn_module ?st1 ! i = Linear w b'" using i Linear by simp
    moreover have "i < length (map nn_module ?st1)" using i by simp
    ultimately have gs: "map length (fst (?g i)) = map length w"
        "length (snd (?g i)) = length b'"
      using gradient_shapedD [OF assms(2), of i "map nn_module ?st1" w b' images "snd b"]
      by blast+
    note ex = backward_layer_exact [OF c s Linear gs]
    have "grads_shaped (backward_layer (?g i) (?st1 ! i))"
      using ex gs Linear by (simp add: grads_shaped_def backward_layer_module)
    with ex show ?thesis by simp
  next
    case ReLU
    then show ?thesis
      by (simp add: has_parameters_def grads_shaped_def backward_layer_module)
  next
    case Softmax
    then show ?thesis
      by (simp add: has_parameters_def grads_shaped_def backward_layer_module)
  next
    case LogSoftmax
    then show ?thesis
      by (simp add: has_parameters_def grads_shaped_def backward_layer_module)
  qed
  have "list_all
        (\<lambda>(pl, g). \<not> has_parameters pl \<or>
           (weight_grad pl = Some (fst g) \<and> bias_grad pl = Some (snd g)))
        (zip (at_step tr) (batch_gradient tr))"
    unfolding list_all_length
  proof (intro allI impI)
    fix i assume "i < length (zip (at_step tr) (batch_gradient tr))"
    then have i: "i < length ?st1" by (simp add: at grad length_backward)
    have "zip (at_step tr) (batch_gradient tr) ! i = (backward_layer (?g i) (?st1 ! i), ?g i)"
      using i by (simp add: at grad length_backward backward_nth)
    then show "case zip (at_step tr) (batch_gradient tr) ! i of
        (pl, g) \<Rightarrow> \<not> has_parameters pl \<or>
           (weight_grad pl = Some (fst g) \<and> bias_grad pl = Some (snd g))"
      using layer_i [OF i] by simp
  qed
  then have uses: "uses_batch_gradient tr"
    by (simp add: uses_batch_gradient_def before at grad length_backward)
  have "list_all grads_shaped (backward ag images (snd b) ?st1)"
    unfolding list_all_length using layer_i by (simp add: length_backward backward_nth)
  then have "list_all grads_shaped st'"
    unfolding st' by (rule optimizer_step_shaped)
  then show ?thesis using clear uses by (simp add: before)
qed

lemma epoch_loop_gradients:
  "epoch_loop ag lr st bs rl = Inr (st', rl_end, trs) \<Longrightarrow>
   gradient_shaped ag \<Longrightarrow> list_all grads_shaped st \<Longrightarrow>
   list_all grads_shaped st'
   \<and> list_all (\<lambda>tr. list_all grads_clear (before_backward tr) \<and> uses_batch_gradient tr) trs"
proof (induction bs arbitrary: st rl trs)
  case Nil
  then show ?case by simp
next
  case (Cons b bs)
  from Cons.prems(1) obtain st1 tr where p: "training_pass ag lr st b = Inr (st1, tr)"
    by (auto split: sum.splits)
  from Cons.prems(1) p obtain trs' where
    rest: "epoch_loop ag lr st1 bs (rl + loss_item tr) = Inr (st', rl_end, trs')"
    and trs: "trs = tr # trs'"
    by (auto split: sum.splits)
  note first = training_pass_gradients [OF p Cons.prems(2,3)]
  then have s1: "list_all grads_shaped st1" by simp
  note IH = Cons.IH [OF rest Cons.prems(2) s1]
  show ?case using first IH trs by simp
qed

lemma run_epoch_gradients:
  assumes "run_epoch ag lr st bs = Inr (st', et)"
    and "gradient_shaped ag" "list_all grads_shaped st"
  shows "list_all grads_shaped st'
       \<and> list_all (\<lambda>tr. list_all grads_clear (before_backward tr) \<and> uses_batch_gradient tr)
           (passes et)"
proof -
  from assms(1) obtain rl_end trs where
    l: "epoch_loop ag lr st bs 0 = Inr (st', rl_end, trs)"
    and et: "et = \<lparr>passes = trs, printed = rl_end / real (length bs)\<rparr>"
    by (auto simp: run_epoch_def split: sum.splits if_splits)
  from epoch_loop_gradients [OF l assms(2,3)] et show ?thesis by simp
qed

lemma epochs_loop_gradients:
  "epochs_loop ag lr trainloader st es = Inr (st', ets) \<Longrightarrow>
   gradient_shaped ag \<Longrightarrow> list_all grads_shaped st \<Longrightarrow>
   length ets = length es
   \<and> list_all (\<lambda>et. list_all (\<lambda>tr. list_all grads_clear (before_backward tr)
                                   \<and> uses_batch_gradient tr) (passes et)) ets"
proof (induction es arbitrary: st ets)
  case Nil
  then show ?case by simp
next
  case (Cons e es)
  from Cons.prems(1) obtain st1 et where r: "run_epoch ag lr st (trainloader e) = Inr (st1, et)"
    by (auto split: sum.splits)
  from Cons.prems(1) r obtain ets' where
    rest: "epochs_loop ag lr trainloader st1 es = Inr (st', ets')" and ets: "ets = et # ets'"
    by (auto split: sum.splits)
  note first = run_epoch_gradients [OF r Cons.prems(2,3)]
  then have s1: "list_all grads_shaped st1" by simp
  note IH = Cons.IH [OF rest Cons.prems(2) s1]
  show ?case using first IH ets by simp
qed

text \<open>
  C5.  In every epoch and for every batch of the training loop, when \<^verbatim>\<open>loss.backward()\<close> is
  called every gradient buffer of every layer is in the cleared state, holding no gradient
  (all zeros, or not yet allocated), and when \<^verbatim>\<open>optimizer.step()\<close> is called the gradient of
  every weight and of every bias is the gradient of the current batch, with nothing of an
  earlier batch accumulated into it.  The gradients that automatic differentiation
  returns have the shapes of the parameters.
\<close>

theorem gradients_clear_before_backward:
  assumes "train ag lr trainloader epochs model = Inr (st', ets)"
    and "gradient_shaped ag"
    and "e < epochs" and "p < length (passes (ets ! e))"
  shows "list_all grads_clear (before_backward (passes (ets ! e) ! p))
       \<and> uses_batch_gradient (passes (ets ! e) ! p)"
proof -
  from assms(1) have loop:
    "epochs_loop ag lr trainloader (fresh_model model) [0..<epochs] = Inr (st', ets)"
    by (simp add: train_def)
  note G = epochs_loop_gradients [OF loop assms(2) fresh_model_shaped]
  from G assms(3) have e: "e < length ets" by simp
  with G have "list_all (\<lambda>tr. list_all grads_clear (before_backward tr) \<and> uses_batch_gradient tr)
                 (passes (ets ! e))"
    by (simp add: list_all_length)
  with assms(4) show ?thesis by (simp add: list_all_length)
qed


section \<open>A concrete run of the training loop\<close>


lemma view_flat_constant_images:
  "0 < n \<Longrightarrow> view_flat (constant_images n v) = Inr (replicate n (replicate 784 v))"
  by (simp add: view_flat_def constant_images_def rows_of_replicate)

lemma fresh_zero_mnist_model:
  "fresh_model zero_mnist_model = zero_weight_state False (replicate 10 0) None"
  by (simp add: fresh_model_def zero_mnist_model_def mnist_model_def zero_weight_state_def)

lemma zero_grad_zero_weight_state:
  "zero_grad (zero_weight_state a b3 g) = zero_weight_state a b3 (map_option (map (\<lambda>_. 0)) g)"
  by (simp add: zero_grad_def zero_weight_state_def)

lemma modules_zero_weight_state:
  "map nn_module (zero_weight_state a b3 g) =
     mnist_model (replicate 128 (replicate 784 0)) (replicate 128 0)
                 (replicate 64 (replicate 128 0)) (replicate 64 0)
                 (replicate 10 (replicate 64 0)) b3"
  by (simp add: zero_weight_state_def mnist_model_def)

lemma add_zeros_mat: "map2 (map2 (+)) (replicate m (replicate k 0)) (replicate m (replicate k (0::real)))
   = replicate m (replicate k 0)"
  by (simp add: zip_replicate map_replicate)

lemma accumulate_zeros:
  "accumulate_mat (if a then Some (replicate m (replicate k 0)) else None) (replicate m (replicate k 0))
     = Some (replicate m (replicate k 0))"
  "accumulate_vec (if a then Some (replicate m 0) else None) (replicate m 0) = Some (replicate m 0)"
  by (simp_all add: accumulate_mat_def accumulate_vec_def)

lemma backward_zero_weight_state:
  "backward zero_weight_autograd x labels (zero_weight_state a b3 g)
     = zero_weight_state True b3 (accumulate_vec g (output_bias_gradient b3 labels))"
  by (simp add: backward_def zero_weight_state_def backward_layer_def zero_weight_autograd_def
        is_last_linear_def accumulate_zeros enumerate_simps)

lemma sgd_zeros:
  "sgd_mat lr (replicate m (replicate k 0)) (Some (replicate m (replicate k 0)))
     = replicate m (replicate k 0)"
  "sgd_vec lr (replicate m 0) (Some (replicate m 0)) = replicate m 0"
  by (simp_all add: sgd_mat_def sgd_vec_def)

lemma optimizer_step_zero_weight_state:
  "optimizer_step lr (zero_weight_state True b3 g)
     = zero_weight_state True (sgd_vec lr b3 g) g"
  by (simp add: optimizer_step_def zero_weight_state_def step_layer_def sgd_zeros)

lemma forward_zero_weight_state:
  assumes "length b3 = 10"
  shows "Sequential (map nn_module (zero_weight_state a b3 g)) (replicate n (replicate 784 0))
           = Inr (replicate n (log_softmax_row b3))"
  unfolding modules_zero_weight_state
  using assms by (intro mnist_zero_images) (simp_all add: is_Linear_def list_all_iff)

lemma nll_per_example_same_rows:
  "nll_per_example (replicate n row) (replicate n y) = replicate n (- (row ! y))"
  by (simp add: nll_per_example_def zip_replicate map_replicate)

lemma training_pass_zero_weight_state:
  assumes "0 < n" "length b3 = 10" "y < 10"
  shows "training_pass zero_weight_autograd lr (zero_weight_state a b3 g)
           (constant_images n 0, replicate n y)
         = Inr (zero_weight_state True
                  (sgd_vec lr b3
                     (accumulate_vec (map_option (map (\<lambda>_. 0)) g)
                        (output_bias_gradient b3 (replicate n y))))
                  (accumulate_vec (map_option (map (\<lambda>_. 0)) g)
                        (output_bias_gradient b3 (replicate n y))),
                \<lparr>before_backward = zero_weight_state a b3 (map_option (map (\<lambda>_. 0)) g),
                 batch_gradient =
                   map (zero_weight_autograd
                          (map nn_module (zero_weight_state a b3 (map_option (map (\<lambda>_. 0)) g)))
                          (replicate n (replicate 784 0)) (replicate n y))
                     [0..<length (zero_weight_state a b3 (map_option (map (\<lambda>_. 0)) g))],
                 at_step = zero_weight_state True b3
                   (accumulate_vec (map_option (map (\<lambda>_. 0)) g)
                        (output_bias_gradient b3 (replicate n y))),
                 loss_item = - (log_softmax_row b3 ! y),
                 example_losses = replicate n (- (log_softmax_row b3 ! y))\<rparr>)"
proof -
  let ?g0 = "map_option (map (\<lambda>_. 0)) g"
  let ?G = "accumulate_vec ?g0 (output_bias_gradient b3 (replicate n y))"
  have len: "length (log_softmax_row b3) = 10"
    using assms(2) by (simp add: log_softmax_row_def Let_def)
  have loss: "NLLLoss (replicate n (log_softmax_row b3)) (replicate n y)
                = Inr (- (log_softmax_row b3 ! y))"
    using assms(1,3) len by (intro NLLLoss_same_rows) simp_all
  show ?thesis
    unfolding training_pass_def Let_def
    by (simp add: view_flat_constant_images [OF assms(1)] zero_grad_zero_weight_state
          forward_zero_weight_state [OF assms(2)] loss backward_zero_weight_state
          nll_per_example_same_rows optimizer_step_zero_weight_state
          del: upt.simps)
qed


lemma upt_10: "[0..<10] = [0, 1, 2, 3, 4, 5, 6, 7, 8, 9]"
  by code_simp

lemma replicate_10: "replicate 10 x = [x, x, x, x, x, x, x, x, x, x]"
  by (simp add: numeral_eq_Suc)

lemma replicate_9: "replicate 9 x = [x, x, x, x, x, x, x, x, x]"
  by (simp add: numeral_eq_Suc)

lemma output_bias_gradient_uniform:
  assumes "0 < n"
  shows "output_bias_gradient (replicate 10 0) (replicate n 0) = (- 9/10) # replicate 9 (1/10)"
proof -
  have sm: "softmax_row (replicate 10 0) = replicate 10 (1/10)"
    using softmax_row_const [of 10 0] by simp
  show ?thesis
    unfolding output_bias_gradient_def sm
    using assms by (simp add: upt_10 replicate_9 sum_list_replicate map_replicate)
qed

lemma first_step_bias:
  "sgd_vec (3/1000) (replicate 10 0) (Some ((- 9/10) # replicate 9 (1/10)))
     = bias_after_first_step"
  by (simp add: sgd_vec_def bias_after_first_step_def replicate_10 replicate_9)

lemma loss_after_first_step_eq:
  "- (log_softmax_row bias_after_first_step ! 0) = loss_after_first_step"
proof -
  let ?b = "bias_after_first_step"
  have S: "sum_list (map exp ?b) = exp (27/10000) + 9 * exp (- 3/10000)"
    by (simp add: bias_after_first_step_def sum_list_replicate)
  have pos: "0 < exp (27/10000) + 9 * exp (- 3/10000 :: real)"
    by (simp add: add_pos_pos)
  have "log_softmax_row ?b = map ln (softmax_row ?b)"
    by (rule log_softmax_row_eq) (simp add: bias_after_first_step_def)
  then have "log_softmax_row ?b ! 0 = ln (exp (27/10000) / (exp (27/10000) + 9 * exp (- 3/10000)))"
    unfolding softmax_row_def S by (simp add: bias_after_first_step_def)
  also have "\<dots> = 27/10000 - ln (exp (27/10000) + 9 * exp (- 3/10000))"
    using pos by (simp add: ln_div)
  finally show ?thesis by (simp add: loss_after_first_step_def)
qed

lemma loss_after_first_step_less: "loss_after_first_step < ln 10"
proof -
  have "exp (- 3/10000 :: real) < exp (27/10000)" by simp
  then have lt: "exp (27/10000) + 9 * exp (- 3/10000 :: real) < 10 * exp (27/10000)" by simp
  have pos: "0 < exp (27/10000) + 9 * exp (- 3/10000 :: real)"
    by (simp add: add_pos_pos)
  have "ln (exp (27/10000) + 9 * exp (- 3/10000 :: real)) < ln (10 * exp (27/10000))"
    using lt pos by (subst ln_less_cancel_iff) simp_all
  also have "\<dots> = ln 10 + 27/10000" by (simp add: ln_mult)
  finally show ?thesis by (simp add: loss_after_first_step_def)
qed

lemma two_batch_epoch:
  assumes "0 < n1" "0 < n2"
  shows "\<exists>st' tr1 tr2.
     run_epoch zero_weight_autograd (3/1000) (fresh_model zero_mnist_model) (two_batches n1 n2)
       = Inr (st', \<lparr>passes = [tr1, tr2], printed = (ln 10 + loss_after_first_step) / 2\<rparr>)
     \<and> before_backward tr1 = fresh_model zero_mnist_model
     \<and> loss_item tr1 = ln 10
     \<and> example_losses tr1 = replicate n1 (ln 10)
     \<and> before_backward tr2 = zero_weight_state True bias_after_first_step (Some (replicate 10 0))
     \<and> loss_item tr2 = loss_after_first_step
     \<and> example_losses tr2 = replicate n2 loss_after_first_step"
proof -
  define g1 :: vec where "g1 = (- 9/10) # replicate 9 (1/10)"
  define s0 where "s0 = zero_weight_state False (replicate 10 0) None"
  define s1 where "s1 = zero_weight_state True bias_after_first_step (Some g1)"
  have l0: "- (log_softmax_row (replicate 10 0) ! 0) = ln 10"
    using log_softmax_row_const [of 10 0] by simp
  have g: "accumulate_vec (map_option (map (\<lambda>_. 0)) None)
             (output_bias_gradient (replicate 10 0) (replicate n1 0)) = Some g1"
    by (simp add: output_bias_gradient_uniform [OF assms(1)] accumulate_vec_def g1_def)
  have b: "sgd_vec (3/1000) (replicate 10 0) (Some g1) = bias_after_first_step"
    unfolding g1_def by (rule first_step_bias)
  obtain tr1 where p1: "training_pass zero_weight_autograd (3/1000) s0
              (constant_images n1 0, replicate n1 0) = Inr (s1, tr1)"
    and t1: "before_backward tr1 = s0" "loss_item tr1 = ln 10"
      "example_losses tr1 = replicate n1 (ln 10)"
    using training_pass_zero_weight_state [OF assms(1), of "replicate 10 0" 0 "3/1000" False None]
    unfolding g l0 s0_def s1_def by (simp add: b)
  have len: "length bias_after_first_step = 10"
    by (simp add: bias_after_first_step_def)
  have z: "map_option (map (\<lambda>_. 0)) (Some g1) = Some (replicate 10 0)"
    by (simp add: g1_def replicate_10 replicate_9)
  obtain st2 tr2 where p2: "training_pass zero_weight_autograd (3/1000) s1
              (constant_images n2 0, replicate n2 0) = Inr (st2, tr2)"
    and t2: "before_backward tr2 = zero_weight_state True bias_after_first_step (Some (replicate 10 0))"
      "loss_item tr2 = loss_after_first_step"
      "example_losses tr2 = replicate n2 loss_after_first_step"
    using training_pass_zero_weight_state [OF assms(2) len, of 0 "3/1000" True "Some g1"]
    unfolding z loss_after_first_step_eq s1_def by simp
  have "run_epoch zero_weight_autograd (3/1000) s0 (two_batches n1 n2)
       = Inr (st2, \<lparr>passes = [tr1, tr2], printed = (ln 10 + loss_after_first_step) / 2\<rparr>)"
    unfolding run_epoch_def two_batches_def
    by (simp add: p1 p2 t1 t2)
  then show ?thesis
    using t1 t2 unfolding fresh_zero_mnist_model s0_def by blast
qed


lemma train_first_epoch:
  "train ag lr trainloader (Suc k) model =
     (case run_epoch ag lr (fresh_model model) (trainloader 0) of
        Inl e \<Rightarrow> Inl e
      | Inr (st, et) \<Rightarrow>
          (case epochs_loop ag lr trainloader st [Suc 0..<Suc k] of
             Inl e \<Rightarrow> Inl e
           | Inr (st', ets) \<Rightarrow> Inr (st', et # ets)))"
  by (simp add: train_def upt_conv_Cons del: upt_Suc)

text \<open>
  C9 as stated fails when the batches of an epoch differ in size, as the 938 batches of
  MNIST do (937 of 64 examples and one of 32).  In the first epoch from
  \<^const>\<open>zero_mnist_model\<close> on a batch of 64 and a batch of 32 examples the loop prints the
  mean of the two batch losses, which is not the mean of the 96 example losses.
\<close>

theorem epoch_report_counterexample:
  "\<not> isl (run_epoch zero_weight_autograd (3/1000) (fresh_model zero_mnist_model)
            (two_batches 64 32))
   \<and> map (\<lambda>tr. length (example_losses tr))
        (passes (snd (projr (run_epoch zero_weight_autograd (3/1000)
           (fresh_model zero_mnist_model) (two_batches 64 32))))) = [64, 32]
   \<and> printed (snd (projr (run_epoch zero_weight_autograd (3/1000)
           (fresh_model zero_mnist_model) (two_batches 64 32))))
       = (ln 10 + loss_after_first_step) / 2
   \<and> mean (epoch_examples (snd (projr (run_epoch zero_weight_autograd (3/1000)
           (fresh_model zero_mnist_model) (two_batches 64 32)))))
       = (64 * ln 10 + 32 * loss_after_first_step) / 96
   \<and> printed (snd (projr (run_epoch zero_weight_autograd (3/1000)
           (fresh_model zero_mnist_model) (two_batches 64 32))))
       \<noteq> mean (epoch_examples (snd (projr (run_epoch zero_weight_autograd (3/1000)
           (fresh_model zero_mnist_model) (two_batches 64 32)))))"
proof -
  obtain st' tr1 tr2 where
    r: "run_epoch zero_weight_autograd (3/1000) (fresh_model zero_mnist_model) (two_batches 64 32)
       = Inr (st', \<lparr>passes = [tr1, tr2], printed = (ln 10 + loss_after_first_step) / 2\<rparr>)"
    and e1: "example_losses tr1 = replicate 64 (ln 10)"
    and e2: "example_losses tr2 = replicate 32 loss_after_first_step"
    using two_batch_epoch [of 64 32] by auto
  have m: "mean (epoch_examples \<lparr>passes = [tr1, tr2], printed = (ln 10 + loss_after_first_step) / 2\<rparr>)
             = (64 * ln 10 + 32 * loss_after_first_step) / 96"
    by (simp add: mean_def epoch_examples_def e1 e2 sum_list_replicate)
  have "(ln 10 + loss_after_first_step) / 2 \<noteq> (64 * ln 10 + 32 * loss_after_first_step) / 96"
    using loss_after_first_step_less by (simp add: field_simps)
  then show ?thesis
    unfolding r using m by (simp add: e1 e2)
qed

theorem epoch_report_is_mean_batch_loss_witness:
  "length (snd (projr (train zero_weight_autograd (3/1000) (\<lambda>e. two_batches 64 64) 1
             zero_mnist_model))) = 1
   \<and> printed (snd (projr (train zero_weight_autograd (3/1000) (\<lambda>e. two_batches 64 64) 1
             zero_mnist_model)) ! 0)
       = (ln 10 + loss_after_first_step) / 2
   \<and> printed (snd (projr (train zero_weight_autograd (3/1000) (\<lambda>e. two_batches 64 64) 1
             zero_mnist_model)) ! 0)
       = mean (epoch_examples (snd (projr (train zero_weight_autograd (3/1000)
             (\<lambda>e. two_batches 64 64) 1 zero_mnist_model)) ! 0))"
proof -
  obtain st' tr1 tr2 where
    r: "run_epoch zero_weight_autograd (3/1000) (fresh_model zero_mnist_model) (two_batches 64 64)
       = Inr (st', \<lparr>passes = [tr1, tr2], printed = (ln 10 + loss_after_first_step) / 2\<rparr>)"
    using two_batch_epoch [of 64 64] by auto
  let ?et = "\<lparr>passes = [tr1, tr2], printed = (ln 10 + loss_after_first_step) / 2\<rparr>"
  have t: "train zero_weight_autograd (3/1000) (\<lambda>e. two_batches 64 64) 1 zero_mnist_model
             = Inr (st', [?et])"
    by (simp add: train_def r)
  have sizes: "list_all (\<lambda>b. length (snd b) = 64) (two_batches 64 64)"
    by (simp add: two_batches_def)
  have "0 < (64::nat) \<and> list_all (\<lambda>b. length (snd b) = 64) (two_batches 64 64)
          \<longrightarrow> printed ([?et] ! 0) = mean (epoch_examples ([?et] ! 0))"
    using epoch_report_is_mean_batch_loss [OF t zero_less_one, of 64] by blast
  moreover have "0 < (64::nat)" by simp
  ultimately have "printed ([?et] ! 0) = mean (epoch_examples ([?et] ! 0))"
    using sizes by blast
  then have "(ln 10 + loss_after_first_step) / 2 = mean (epoch_examples ?et)"
    by simp
  then show ?thesis unfolding t by simp
qed

lemma length_output_bias_gradient: "length (output_bias_gradient b labels) = length b"
  by (simp add: output_bias_gradient_def)

lemma zero_weight_autograd_shaped: "gradient_shaped zero_weight_autograd"
  unfolding gradient_shaped_def zero_weight_autograd_def
  by (auto simp: length_output_bias_gradient comp_def split: layer.splits)

theorem gradients_clear_before_backward_witness:
  "list_all grads_clear (before_backward (passes (snd (projr (train zero_weight_autograd
      (3/1000) (\<lambda>e. two_batches 64 32) 1 zero_mnist_model)) ! 0) ! 0))
   \<and> uses_batch_gradient (passes (snd (projr (train zero_weight_autograd
      (3/1000) (\<lambda>e. two_batches 64 32) 1 zero_mnist_model)) ! 0) ! 0)
   \<and> list_all grads_clear (before_backward (passes (snd (projr (train zero_weight_autograd
      (3/1000) (\<lambda>e. two_batches 64 32) 1 zero_mnist_model)) ! 0) ! 1))
   \<and> uses_batch_gradient (passes (snd (projr (train zero_weight_autograd
      (3/1000) (\<lambda>e. two_batches 64 32) 1 zero_mnist_model)) ! 0) ! 1)"
proof -
  obtain st' tr1 tr2 where
    r: "run_epoch zero_weight_autograd (3/1000) (fresh_model zero_mnist_model) (two_batches 64 32)
       = Inr (st', \<lparr>passes = [tr1, tr2], printed = (ln 10 + loss_after_first_step) / 2\<rparr>)"
    using two_batch_epoch [of 64 32] by auto
  let ?et = "\<lparr>passes = [tr1, tr2], printed = (ln 10 + loss_after_first_step) / 2\<rparr>"
  have t: "train zero_weight_autograd (3/1000) (\<lambda>e. two_batches 64 32) 1 zero_mnist_model
             = Inr (st', [?et])"
    by (simp add: train_def r)
  have p0: "0 < length (passes ([?et] ! 0))" and p1: "1 < length (passes ([?et] ! 0))"
    by simp_all
  from gradients_clear_before_backward [OF t zero_weight_autograd_shaped zero_less_one p0]
       gradients_clear_before_backward [OF t zero_weight_autograd_shaped zero_less_one p1]
  show ?thesis unfolding t by auto
qed
end
